theory Spec2Isabelle
  imports Main
begin

section \<open>JavaScript values and objects\<close>

text \<open>
  The module under study is \<^verbatim>\<open>inputValueTracking.js\<close>.  It works on DOM form controls
  through property descriptors, accessor functions and closures.  The embedding keeps
  these notions explicit:

  \<^item> a JavaScript value is a \<open>jsval\<close>.  Numbers are left out (their string form is a
    matter of floating point); symbols and objects carry an identity, so that HOL
    equality on \<open>jsval\<close> is the strict equality \<^verbatim>\<open>===\<close>;
  \<^item> an exception is a value of type \<open>error\<close>: \<open>TypeError\<close> is raised by the
    language itself, \<open>Thrown x\<close> by host code;
  \<^item> the world is a store of nodes, of classes (the own property table of
    \<^verbatim>\<open>node.constructor.prototype\<close>) and of the closures that \<^verbatim>\<open>trackValueOnNode\<close> creates;
  \<^item> accessor functions of the host (the DOM, test spies, polyfills) are referred to
    by number; what they do is given by a \<open>host\<close> environment, and is arbitrary:
    a host function takes the whole world and returns a value and a new world, or throws.

  Every function of the module takes the world and returns its result together with the
  new world, or an error.  The flag \<open>dev\<close> is \<^verbatim>\<open>__DEV__\<close>.

  What the embedding takes for granted: \<^verbatim>\<open>node.constructor.prototype\<close> is the one object
  that a read of \<^verbatim>\<open>node.value\<close> or \<^verbatim>\<open>node.checked\<close> falls back to when the node has no own
  property of that name; nodes are extensible, so that \<^verbatim>\<open>Object.defineProperty\<close> on a node
  that has no such own property, and the assignment to \<^verbatim>\<open>node._valueTracker\<close>, succeed; the
  module is strict-mode code; the class never holds one of the two functions that the
  module installs on nodes.
\<close>

datatype jsval = JUndefined | JNull | JBool bool | JStr string | JSymbol nat | JObject nat

datatype error = TypeError | Thrown nat

text \<open>The two fields the module can intercept: \<^verbatim>\<open>'checked'\<close> and \<^verbatim>\<open>'value'\<close>.\<close>

datatype field = Checked | Value

text \<open>
  A property descriptor is a data descriptor (value, writable, enumerable, configurable)
  or an accessor descriptor (get, set, enumerable, configurable); an accessor that is
  \<^verbatim>\<open>undefined\<close> is \<open>None\<close>.
\<close>

datatype ('g, 's) pdesc =
    DataDesc jsval bool bool bool
  | AccDesc "'g option" "'s option" bool bool

fun desc_get :: "('g, 's) pdesc \<Rightarrow> 'g option" where
  "desc_get (DataDesc v wr en cf) = None"
| "desc_get (AccDesc g s en cf) = g"

fun desc_set :: "('g, 's) pdesc \<Rightarrow> 's option" where
  "desc_set (DataDesc v wr en cf) = None"
| "desc_set (AccDesc g s en cf) = s"

fun desc_enumerable :: "('g, 's) pdesc \<Rightarrow> bool" where
  "desc_enumerable (DataDesc v wr en cf) = en"
| "desc_enumerable (AccDesc g s en cf) = en"

fun desc_configurable :: "('g, 's) pdesc \<Rightarrow> bool" where
  "desc_configurable (DataDesc v wr en cf) = cf"
| "desc_configurable (AccDesc g s en cf) = cf"

text \<open>
  A class-level accessor is a host function.  An instance-level accessor is a host
  function or one of the two functions that \<^verbatim>\<open>trackValueOnNode\<close> installs, identified by
  the closure they belong to.
\<close>

datatype getter = HostGet nat | InstalledGet nat

datatype setter = HostSet nat | InstalledSet nat

type_synonym class_desc = "(nat, nat) pdesc"

type_synonym own_desc = "(getter, setter) pdesc"

text \<open>The content of \<^verbatim>\<open>node._valueTracker\<close>: absent, \<^verbatim>\<open>null\<close>, or a tracker object.\<close>

datatype tref = TUndefined | TNull | TRef nat

text \<open>
  A node: \<^verbatim>\<open>nodeName\<close> and \<^verbatim>\<open>type\<close> (strings on every DOM element), its class, its own
  properties for the two fields, \<^verbatim>\<open>_valueTracker\<close>, and the internal state of the
  control (its value and its checkedness), which the native accessors read and write
  and which user input changes without calling any accessor.
\<close>

record node =
  nodeName :: string
  nodeType :: string
  constr :: nat
  own :: "field \<Rightarrow> own_desc option"
  valueTracker :: tref
  value_slot :: string
  checked_slot :: bool

text \<open>
  The variables a call of \<^verbatim>\<open>trackValueOnNode\<close> closes over: \<^verbatim>\<open>node\<close>, \<^verbatim>\<open>valueField\<close>, the
  captured \<^verbatim>\<open>get\<close> and \<^verbatim>\<open>set\<close>, and the mutable cell \<^verbatim>\<open>currentValue\<close>.
\<close>

record closure =
  c_node :: nat
  c_valueField :: field
  c_get :: "nat option"
  c_set :: "nat option"
  currentValue :: jsval

record world =
  heap :: "nat \<Rightarrow> node"
  classes :: "nat \<Rightarrow> field \<Rightarrow> class_desc option"
  closures :: "nat \<Rightarrow> closure"
  next_closure :: nat
  diagnostics :: "jsval list"

text \<open>
  The host: what the accessor function number \<open>g\<close> does when called with a receiver
  (\<^verbatim>\<open>this\<close>), and what the string conversion of the object number \<open>x\<close> yields
  (conversions are taken to be free of side effects).  \<open>Inl x\<close> is a thrown exception.
\<close>

record host =
  hget :: "nat \<Rightarrow> nat \<Rightarrow> world \<Rightarrow> nat + jsval \<times> world"
  hset :: "nat \<Rightarrow> nat \<Rightarrow> jsval \<Rightarrow> world \<Rightarrow> nat + world"
  toPrimitive :: "nat \<Rightarrow> nat + string"

definition call_hget :: "host \<Rightarrow> nat \<Rightarrow> nat \<Rightarrow> world \<Rightarrow> error + jsval \<times> world" where
  "call_hget env g this w =
     (case hget env g this w of Inl x \<Rightarrow> Inl (Thrown x) | Inr r \<Rightarrow> Inr r)"

definition call_hset :: "host \<Rightarrow> nat \<Rightarrow> nat \<Rightarrow> jsval \<Rightarrow> world \<Rightarrow> error + world" where
  "call_hset env s this v w =
     (case hset env s this v w of Inl x \<Rightarrow> Inl (Thrown x) | Inr w' \<Rightarrow> Inr w')"

text \<open>\<^verbatim>\<open>f.call(this)\<close> where \<^verbatim>\<open>f\<close> may be \<^verbatim>\<open>undefined\<close>: calling \<^verbatim>\<open>undefined\<close> is a TypeError.\<close>

definition call_get_opt :: "host \<Rightarrow> nat option \<Rightarrow> nat \<Rightarrow> world \<Rightarrow> error + jsval \<times> world" where
  "call_get_opt env f this w =
     (case f of None \<Rightarrow> Inl TypeError | Some g \<Rightarrow> call_hget env g this w)"

definition call_set_opt :: "host \<Rightarrow> nat option \<Rightarrow> nat \<Rightarrow> jsval \<Rightarrow> world \<Rightarrow> error + world" where
  "call_set_opt env f this v w =
     (case f of None \<Rightarrow> Inl TypeError | Some s \<Rightarrow> call_hset env s this v w)"

text \<open>Truthiness, as \<^verbatim>\<open>node.checked ? 'true' : 'false'\<close> tests it.\<close>

fun truthy :: "jsval \<Rightarrow> bool" where
  "truthy JUndefined = False"
| "truthy JNull = False"
| "truthy (JBool b) = b"
| "truthy (JStr s) = (s \<noteq> [])"
| "truthy (JSymbol x) = True"
| "truthy (JObject x) = True"

text \<open>The string coercion \<^verbatim>\<open>'' + v\<close>.  It raises a TypeError on a symbol.\<close>

fun coerce_string :: "host \<Rightarrow> jsval \<Rightarrow> error + string" where
  "coerce_string env JUndefined = Inr ''undefined''"
| "coerce_string env JNull = Inr ''null''"
| "coerce_string env (JBool b) = Inr (if b then ''true'' else ''false'')"
| "coerce_string env (JStr s) = Inr s"
| "coerce_string env (JSymbol x) = Inl TypeError"
| "coerce_string env (JObject x) =
     (case toPrimitive env x of Inl e \<Rightarrow> Inl (Thrown e) | Inr s \<Rightarrow> Inr s)"

text \<open>
  Modelled from the spec: \<^verbatim>\<open>checkFormFieldValueStringCoercion\<close> is imported from
  \<^verbatim>\<open>shared/CheckStringCoercion\<close>, which is not part of the sources at hand.  The
  specification says that it raises a diagnostic, without failing the operation, when
  the value is not safely string-coercible, and that it rejects non-primitive inputs.
  The diagnostics are collected in the world.
\<close>

fun safely_coercible :: "jsval \<Rightarrow> bool" where
  "safely_coercible (JSymbol x) = False"
| "safely_coercible (JObject x) = False"
| "safely_coercible v = True"

definition checkFormFieldValueStringCoercion :: "jsval \<Rightarrow> world \<Rightarrow> world" where
  "checkFormFieldValueStringCoercion v w =
     (if safely_coercible v then w else w\<lparr>diagnostics := diagnostics w @ [v]\<rparr>)"

text \<open>The \<^verbatim>\<open>if (__DEV__) { checkFormFieldValueStringCoercion(v); }\<close> of the source.\<close>

definition dev_check :: "bool \<Rightarrow> jsval \<Rightarrow> world \<Rightarrow> world" where
  "dev_check dev v w = (if dev then checkFormFieldValueStringCoercion v w else w)"

section \<open>The functions of the module\<close>

text \<open>\<^verbatim>\<open>String.prototype.toLowerCase\<close>, on the ASCII letters.\<close>

definition lower_char :: "char \<Rightarrow> char" where
  "lower_char c =
     (case map_of (zip ''ABCDEFGHIJKLMNOPQRSTUVWXYZ'' ''abcdefghijklmnopqrstuvwxyz'') c of
        None \<Rightarrow> c
      | Some l \<Rightarrow> l)"

definition toLowerCase :: "string \<Rightarrow> string" where
  "toLowerCase s = map lower_char s"

definition isCheckable :: "node \<Rightarrow> bool" where
  "isCheckable elem =
     (let type = nodeType elem; nodeName = nodeName elem
      in nodeName \<noteq> [] \<and> toLowerCase nodeName = ''input'' \<and>
         (type = ''checkbox'' \<or> type = ''radio''))"

definition getTracker :: "node \<Rightarrow> tref" where
  "getTracker nd = valueTracker nd"

definition detachTracker :: "nat \<Rightarrow> world \<Rightarrow> world" where
  "detachTracker n w = w\<lparr>heap := (heap w)(n := (heap w n)\<lparr>valueTracker := TNull\<rparr>)\<rparr>"

text \<open>
  \<^verbatim>\<open>Object.getOwnPropertyDescriptor(node.constructor.prototype, valueField)\<close>: a snapshot
  of the class-level descriptor as it is in the world \<open>w\<close>.
\<close>

definition classDescriptor :: "world \<Rightarrow> nat \<Rightarrow> field \<Rightarrow> class_desc option" where
  "classDescriptor w n f = classes w (constr (heap w n)) f"

text \<open>\<^verbatim>\<open>d.get\<close> and \<^verbatim>\<open>d.set\<close> of a descriptor that may be \<^verbatim>\<open>undefined\<close> (guarded in the source).\<close>

definition descriptor_get :: "('g, 's) pdesc option \<Rightarrow> 'g option" where
  "descriptor_get d = (case d of None \<Rightarrow> None | Some x \<Rightarrow> desc_get x)"

definition descriptor_set :: "('g, 's) pdesc option \<Rightarrow> 's option" where
  "descriptor_set d = (case d of None \<Rightarrow> None | Some x \<Rightarrow> desc_set x)"

text \<open>
  The getter that \<^verbatim>\<open>trackValueOnNode\<close> installs (source lines 82 to 94), for the closure
  \<open>t\<close> and the receiver \<open>this\<close>.
\<close>

definition installed_get :: "host \<Rightarrow> nat \<Rightarrow> nat \<Rightarrow> world \<Rightarrow> error + jsval \<times> world" where
  "installed_get env t this w =
     (let c = closures w t;
          currentDescriptor = classDescriptor w (c_node c) (c_valueField c)
      in if currentDescriptor = None \<or> descriptor_get currentDescriptor = None
         then call_get_opt env (c_get c) this w
         else call_get_opt env (descriptor_get currentDescriptor) this w)"

text \<open>The setter that \<^verbatim>\<open>trackValueOnNode\<close> installs (source lines 97 to 114).\<close>

definition set_currentValue :: "nat \<Rightarrow> jsval \<Rightarrow> world \<Rightarrow> world" where
  "set_currentValue t v w =
     w\<lparr>closures := (closures w)(t := (closures w t)\<lparr>currentValue := v\<rparr>)\<rparr>"

definition installed_set :: "host \<Rightarrow> bool \<Rightarrow> nat \<Rightarrow> nat \<Rightarrow> jsval \<Rightarrow> world \<Rightarrow> error + world" where
  "installed_set env dev t this v w =
     (let w1 = dev_check dev v w
      in case coerce_string env v of
           Inl e \<Rightarrow> Inl e
         | Inr s \<Rightarrow>
             (let w2 = set_currentValue t (JStr s) w1;
                  c = closures w2 t;
                  currentDescriptor = classDescriptor w2 (c_node c) (c_valueField c)
              in if currentDescriptor = None \<or> descriptor_set currentDescriptor = None
                 then call_set_opt env (c_set c) this v w2
                 else call_set_opt env (descriptor_set currentDescriptor) this v w2))"

text \<open>
  Reading \<^verbatim>\<open>node[f]\<close>: the node's own property first, then the class.  A getter is
  called with the node as receiver.  \<open>class_get_prop\<close> is the read as the class alone
  answers it, that is, the read of a node that has no own property \<open>f\<close>.
\<close>

definition class_get_prop :: "host \<Rightarrow> nat \<Rightarrow> field \<Rightarrow> world \<Rightarrow> error + jsval \<times> world" where
  "class_get_prop env n f w =
     (case classDescriptor w n f of
        None \<Rightarrow> Inr (JUndefined, w)
      | Some (DataDesc v wr en cf) \<Rightarrow> Inr (v, w)
      | Some (AccDesc g s en cf) \<Rightarrow>
          (case g of None \<Rightarrow> Inr (JUndefined, w) | Some h \<Rightarrow> call_hget env h n w))"

definition get_prop :: "host \<Rightarrow> nat \<Rightarrow> field \<Rightarrow> world \<Rightarrow> error + jsval \<times> world" where
  "get_prop env n f w =
     (case own (heap w n) f of
        Some (DataDesc v wr en cf) \<Rightarrow> Inr (v, w)
      | Some (AccDesc g s en cf) \<Rightarrow>
          (case g of
             None \<Rightarrow> Inr (JUndefined, w)
           | Some (HostGet h) \<Rightarrow> call_hget env h n w
           | Some (InstalledGet t) \<Rightarrow> installed_get env t n w)
      | None \<Rightarrow> class_get_prop env n f w)"

text \<open>
  Writing \<^verbatim>\<open>node[f] = v\<close> from strict-mode code: a setter is called with the node as
  receiver; a write that cannot be done is a TypeError.
\<close>

definition set_own :: "nat \<Rightarrow> field \<Rightarrow> own_desc option \<Rightarrow> world \<Rightarrow> world" where
  "set_own n f d w = w\<lparr>heap := (heap w)(n := (heap w n)\<lparr>own := (own (heap w n))(f := d)\<rparr>)\<rparr>"

definition set_prop :: "host \<Rightarrow> bool \<Rightarrow> nat \<Rightarrow> field \<Rightarrow> jsval \<Rightarrow> world \<Rightarrow> error + world" where
  "set_prop env dev n f v w =
     (case own (heap w n) f of
        Some (DataDesc old wr en cf) \<Rightarrow>
          (if wr then Inr (set_own n f (Some (DataDesc v wr en cf)) w) else Inl TypeError)
      | Some (AccDesc g s en cf) \<Rightarrow>
          (case s of
             None \<Rightarrow> Inl TypeError
           | Some (HostSet h) \<Rightarrow> call_hset env h n v w
           | Some (InstalledSet t) \<Rightarrow> installed_set env dev t n v w)
      | None \<Rightarrow>
          (case classDescriptor w n f of
             None \<Rightarrow> Inr (set_own n f (Some (DataDesc v True True True)) w)
           | Some (DataDesc old wr en cf) \<Rightarrow>
               (if wr then Inr (set_own n f (Some (DataDesc v True True True)) w)
                else Inl TypeError)
           | Some (AccDesc g s en cf) \<Rightarrow>
               (case s of None \<Rightarrow> Inl TypeError | Some h \<Rightarrow> call_hset env h n v w)))"

text \<open>\<^verbatim>\<open>delete node[f]\<close> in strict mode.\<close>

definition delete_prop :: "nat \<Rightarrow> field \<Rightarrow> world \<Rightarrow> error + world" where
  "delete_prop n f w =
     (case own (heap w n) f of
        None \<Rightarrow> Inr w
      | Some d \<Rightarrow> if desc_configurable d then Inr (set_own n f None w) else Inl TypeError)"

text \<open>
  \<^verbatim>\<open>getValueFromNode\<close>; the node may be absent (\<open>None\<close>).
\<close>

definition getValueFromNode :: "host \<Rightarrow> nat option \<Rightarrow> world \<Rightarrow> error + jsval \<times> world" where
  "getValueFromNode env node w =
     (case node of
        None \<Rightarrow> Inr (JStr '''', w)
      | Some n \<Rightarrow>
          if isCheckable (heap w n)
          then (case get_prop env n Checked w of
                  Inl e \<Rightarrow> Inl e
                | Inr (c, w') \<Rightarrow> Inr (JStr (if truthy c then ''true'' else ''false''), w'))
          else get_prop env n Value w)"

text \<open>
  Source lines 61 to 64 of \<^verbatim>\<open>trackValueOnNode\<close>: in a development build the field is
  read once for the diagnostic hook; then it is read and coerced to a string.
\<close>

definition seed_currentValue :: "host \<Rightarrow> bool \<Rightarrow> nat \<Rightarrow> field \<Rightarrow> world \<Rightarrow> error + string \<times> world" where
  "seed_currentValue env dev n valueField w =
     (case (if dev
            then (case get_prop env n valueField w of
                    Inl e \<Rightarrow> Inl e
                  | Inr (v0, w0) \<Rightarrow> Inr (checkFormFieldValueStringCoercion v0 w0))
            else Inr w) of
        Inl e \<Rightarrow> Inl e
      | Inr w1 \<Rightarrow>
          (case get_prop env n valueField w1 of
             Inl e \<Rightarrow> Inl e
           | Inr (v, w2) \<Rightarrow>
               (case coerce_string env v of Inl e \<Rightarrow> Inl e | Inr s \<Rightarrow> Inr (s, w2))))"

text \<open>
  The two calls of \<^verbatim>\<open>Object.defineProperty\<close> (source lines 79 to 122): the first defines
  a configurable accessor property (not enumerable, as an absent attribute defaults to
  false); the second sets only the \<^verbatim>\<open>enumerable\<close> attribute of the property that is there.
\<close>

definition defineProperty_accessor :: "nat \<Rightarrow> field \<Rightarrow> getter \<Rightarrow> setter \<Rightarrow> world \<Rightarrow> world" where
  "defineProperty_accessor n f g s w = set_own n f (Some (AccDesc (Some g) (Some s) False True)) w"

definition defineProperty_enumerable :: "nat \<Rightarrow> field \<Rightarrow> bool \<Rightarrow> world \<Rightarrow> world" where
  "defineProperty_enumerable n f en w =
     (case own (heap w n) f of
        None \<Rightarrow> set_own n f (Some (DataDesc JUndefined False en False)) w
      | Some (DataDesc v wr e cf) \<Rightarrow> set_own n f (Some (DataDesc v wr en cf)) w
      | Some (AccDesc g s e cf) \<Rightarrow> set_own n f (Some (AccDesc g s en cf)) w)"

definition new_closure :: "closure \<Rightarrow> world \<Rightarrow> nat \<times> world" where
  "new_closure c w =
     (let t = next_closure w
      in (t, w\<lparr>closures := (closures w)(t := c), next_closure := Suc t\<rparr>))"

definition bail :: "world \<Rightarrow> nat \<Rightarrow> field \<Rightarrow> class_desc option \<Rightarrow> bool" where
  "bail w n valueField descriptor =
     (own (heap w n) valueField \<noteq> None \<or>
      descriptor = None \<or>
      descriptor_get descriptor = None \<or>
      descriptor_set descriptor = None)"

definition valueField_of :: "node \<Rightarrow> field" where
  "valueField_of nd = (if isCheckable nd then Checked else Value)"

definition trackValueOnNode :: "host \<Rightarrow> bool \<Rightarrow> nat \<Rightarrow> world \<Rightarrow> error + tref \<times> world" where
  "trackValueOnNode env dev n w =
     (let valueField = valueField_of (heap w n);
          descriptor = classDescriptor w n valueField
      in case seed_currentValue env dev n valueField w of
           Inl e \<Rightarrow> Inl e
         | Inr (s, w2) \<Rightarrow>
             if bail w2 n valueField descriptor
             then Inr (TUndefined, w2)
             else
               (let (t, w3) = new_closure
                      \<lparr>c_node = n, c_valueField = valueField,
                       c_get = descriptor_get descriptor, c_set = descriptor_set descriptor,
                       currentValue = JStr s\<rparr> w2;
                    w4 = defineProperty_accessor n valueField (InstalledGet t) (InstalledSet t) w3;
                    w5 = defineProperty_enumerable n valueField
                           (case descriptor of None \<Rightarrow> False | Some d \<Rightarrow> desc_enumerable d) w4
                in Inr (TRef t, w5)))"

text \<open>The three methods of the tracker object (source lines 124 to 138).\<close>

definition tracker_getValue :: "nat \<Rightarrow> world \<Rightarrow> jsval" where
  "tracker_getValue t w = currentValue (closures w t)"

definition tracker_setValue :: "host \<Rightarrow> bool \<Rightarrow> nat \<Rightarrow> jsval \<Rightarrow> world \<Rightarrow> error + world" where
  "tracker_setValue env dev t v w =
     (let w1 = dev_check dev v w
      in case coerce_string env v of
           Inl e \<Rightarrow> Inl e
         | Inr s \<Rightarrow> Inr (set_currentValue t (JStr s) w1))"

definition tracker_stopTracking :: "nat \<Rightarrow> world \<Rightarrow> error + world" where
  "tracker_stopTracking t w =
     (let c = closures w t;
          w1 = detachTracker (c_node c) w
      in delete_prop (c_node c) (c_valueField c) w1)"

text \<open>The exported functions.\<close>

definition track :: "host \<Rightarrow> bool \<Rightarrow> nat \<Rightarrow> world \<Rightarrow> error + world" where
  "track env dev n w =
     (case getTracker (heap w n) of
        TRef t \<Rightarrow> Inr w
      | _ \<Rightarrow>
          (case trackValueOnNode env dev n w of
             Inl e \<Rightarrow> Inl e
           | Inr (r, w') \<Rightarrow>
               Inr (w'\<lparr>heap := (heap w')(n := (heap w' n)\<lparr>valueTracker := r\<rparr>)\<rparr>)))"

definition updateValueIfChanged :: "host \<Rightarrow> bool \<Rightarrow> nat option \<Rightarrow> world \<Rightarrow> error + bool \<times> world" where
  "updateValueIfChanged env dev node w =
     (case node of
        None \<Rightarrow> Inr (False, w)
      | Some n \<Rightarrow>
          (case getTracker (heap w n) of
             TRef t \<Rightarrow>
               (let lastValue = tracker_getValue t w
                in case getValueFromNode env (Some n) w of
                     Inl e \<Rightarrow> Inl e
                   | Inr (nextValue, w1) \<Rightarrow>
                       if nextValue \<noteq> lastValue
                       then (case tracker_setValue env dev t nextValue w1 of
                               Inl e \<Rightarrow> Inl e
                             | Inr w2 \<Rightarrow> Inr (True, w2))
                       else Inr (False, w1))
           | _ \<Rightarrow> Inr (True, w)))"

definition stopTracking :: "nat \<Rightarrow> world \<Rightarrow> error + world" where
  "stopTracking n w =
     (case getTracker (heap w n) of
        TRef t \<Rightarrow> tracker_stopTracking t w
      | _ \<Rightarrow> Inr w)"

section \<open>Sequencing, and a sample page\<close>

text \<open>Running one call after another, as a script does; an exception ends the run.\<close>

definition andThen :: "error + world \<Rightarrow> (world \<Rightarrow> error + 'a) \<Rightarrow> error + 'a" where
  "andThen r f = (case r of Inl e \<Rightarrow> Inl e | Inr w \<Rightarrow> f w)"

definition returned :: "error + 'a \<times> world \<Rightarrow> error + 'a" where
  "returned r = (case r of Inl e \<Rightarrow> Inl e | Inr (x, w) \<Rightarrow> Inr x)"

definition world_after :: "error + 'a \<times> world \<Rightarrow> error + world" where
  "world_after r = (case r of Inl e \<Rightarrow> Inl e | Inr (x, w) \<Rightarrow> Inr w)"

text \<open>
  The host changes the internal state of a control (the user types or clicks) without
  calling any accessor of the node.
\<close>

definition host_input :: "nat \<Rightarrow> string \<Rightarrow> bool \<Rightarrow> world \<Rightarrow> world" where
  "host_input n s b w = w\<lparr>heap := (heap w)(n := (heap w n)\<lparr>value_slot := s, checked_slot := b\<rparr>)\<rparr>"

text \<open>What a native accessor of the field reads: the internal state of the control.\<close>

definition slot_value :: "field \<Rightarrow> node \<Rightarrow> jsval" where
  "slot_value f nd = (case f of Checked \<Rightarrow> JBool (checked_slot nd) | Value \<Rightarrow> JStr (value_slot nd))"

definition reads_slot :: "host \<Rightarrow> nat \<Rightarrow> field \<Rightarrow> bool" where
  "reads_slot env g f = (\<forall>this w. hget env g this w = Inr (slot_value f (heap w this), w))"

text \<open>
  The closure \<open>t\<close> holds in \<open>w\<close> the variables it captured in \<open>w1\<close>; only the cell
  \<^verbatim>\<open>currentValue\<close> may differ (the other variables are never assigned).
\<close>

definition same_captured :: "world \<Rightarrow> world \<Rightarrow> nat \<Rightarrow> bool" where
  "same_captured w w1 t =
     (closures w t = (closures w1 t)\<lparr>currentValue := currentValue (closures w t)\<rparr>)"

fun is_string :: "jsval \<Rightarrow> bool" where
  "is_string (JStr s) = True"
| "is_string v = False"

text \<open>
  A sample host: getter 0 and setter 0 are the native accessors of \<^verbatim>\<open>value\<close>, getter 1
  and setter 1 those of \<^verbatim>\<open>checked\<close>; getter 2 and setter 2 stand for accessors that an
  environment puts on the class later; getter 3 answers \<^verbatim>\<open>null\<close>; any other function throws.
\<close>

definition dom_hget :: "nat \<Rightarrow> nat \<Rightarrow> world \<Rightarrow> nat + jsval \<times> world" where
  "dom_hget g this w =
     (if g = 0 then Inr (JStr (value_slot (heap w this)), w)
      else if g = 1 then Inr (JBool (checked_slot (heap w this)), w)
      else if g = 2 then Inr (JStr ''patched'', w)
      else if g = 3 then Inr (JNull, w)
      else Inl 0)"

definition dom_hset :: "nat \<Rightarrow> nat \<Rightarrow> jsval \<Rightarrow> world \<Rightarrow> nat + world" where
  "dom_hset s this v w =
     (if s = 0
      then Inr (w\<lparr>heap := (heap w)(this := (heap w this)
                  \<lparr>value_slot := (case v of JStr x \<Rightarrow> x | _ \<Rightarrow> [])\<rparr>)\<rparr>)
      else if s = 1
      then Inr (w\<lparr>heap := (heap w)(this := (heap w this)\<lparr>checked_slot := truthy v\<rparr>)\<rparr>)
      else if s = 2
      then Inr (w\<lparr>diagnostics := diagnostics w @ [tracker_getValue 0 w]\<rparr>)
      else Inl 0)"

definition dom_host :: host where
  "dom_host = \<lparr>hget = dom_hget, hset = dom_hset, toPrimitive = (\<lambda>x. Inr ''[object Object]'')\<rparr>"

text \<open>
  A sample page: node 0 is a text input holding \<open>a\<close>, node 1 an unchecked checkbox,
  node 2 a text input that owns a \<^verbatim>\<open>value\<close> property of its own (as a test spy leaves it),
  node 3 a text input whose class defines neither field.
  Class 0 is that of input elements; the other classes define neither field.
\<close>

definition text_input :: node where
  "text_input = \<lparr>nodeName = ''INPUT'', nodeType = ''text'', constr = 0, own = (\<lambda>f. None),
     valueTracker = TUndefined, value_slot = ''a'', checked_slot = False\<rparr>"

definition checkbox :: node where
  "checkbox = text_input\<lparr>nodeType := ''checkbox'', value_slot := ''on''\<rparr>"

definition spied_input :: node where
  "spied_input = text_input\<lparr>own := (\<lambda>f. None)(Value := Some (DataDesc (JStr ''spy'') True True True))\<rparr>"

definition classless_input :: node where
  "classless_input = text_input\<lparr>constr := 1\<rparr>"

definition input_class :: "field \<Rightarrow> class_desc option" where
  "input_class f =
     (case f of
        Value \<Rightarrow> Some (AccDesc (Some 0) (Some 0) True True)
      | Checked \<Rightarrow> Some (AccDesc (Some 1) (Some 1) True True))"

definition page :: world where
  "page = \<lparr>heap = (\<lambda>i. if i = 1 then checkbox else if i = 2 then spied_input
                    else if i = 3 then classless_input else text_input),
     classes = (\<lambda>k. if k = 0 then input_class else (\<lambda>f. None)),
     closures = (\<lambda>t. \<lparr>c_node = 0, c_valueField = Value, c_get = None, c_set = None,
                           currentValue = JUndefined\<rparr>),
     next_closure = 0, diagnostics = []\<rparr>"

text \<open>The page after \<^verbatim>\<open>track\<close> on node \<open>n\<close>, in a production build.\<close>

definition tracked_page :: "nat \<Rightarrow> world" where
  "tracked_page n = (case track dom_host False n page of Inl e \<Rightarrow> page | Inr w \<Rightarrow> w)"

text \<open>
  The string a control shows to \<^verbatim>\<open>getValueFromNode\<close> when its field is read natively.
\<close>

definition observed :: "field \<Rightarrow> node \<Rightarrow> string" where
  "observed f nd =
     (case f of
        Checked \<Rightarrow> (if checked_slot nd then ''true'' else ''false'')
      | Value \<Rightarrow> value_slot nd)"

text \<open>
  The getter that the installed getter of closure \<open>t\<close> delegates to in \<open>w\<close>: the one of
  the class-level descriptor as it is now, else the captured one.
\<close>

definition delegate_get :: "world \<Rightarrow> nat \<Rightarrow> nat option" where
  "delegate_get w t =
     (let c = closures w t
      in case descriptor_get (classDescriptor w (c_node c) (c_valueField c)) of
           None \<Rightarrow> c_get c
         | Some g \<Rightarrow> Some g)"

text \<open>
  Node \<open>n\<close> is tracked by \<open>t\<close> in \<open>w\<close>: it holds the tracker, the tracker's closure is
  about this node and the field that \<^verbatim>\<open>getValueFromNode\<close> reads, the installed getter is in
  place on the node, and the getter it delegates to reads the control natively.
\<close>

definition intercepting :: "host \<Rightarrow> world \<Rightarrow> nat \<Rightarrow> nat \<Rightarrow> bool" where
  "intercepting env w n t =
     (getTracker (heap w n) = TRef t \<and>
      c_node (closures w t) = n \<and>
      c_valueField (closures w t) = valueField_of (heap w n) \<and>
      descriptor_get (own (heap w n) (valueField_of (heap w n))) = Some (InstalledGet t) \<and>
      (\<exists>g. delegate_get w t = Some g \<and> reads_slot env g (valueField_of (heap w n))))"

text \<open>The cell of a tracker stays a string across every setter of the host.\<close>

definition host_keeps_string :: "host \<Rightarrow> nat \<Rightarrow> bool" where
  "host_keeps_string env t =
     (\<forall>s this v w w'. hset env s this v w = Inr w' \<and> is_string (tracker_getValue t w) \<longrightarrow>
        is_string (tracker_getValue t w'))"

text \<open>
  The tracked page after an environment has replaced the class-level descriptor of
  \<^verbatim>\<open>value\<close> by one with getter 2 and setter 2, and after it has removed the descriptor.
\<close>

definition patched_page :: world where
  "patched_page = (tracked_page 0)\<lparr>classes :=
     (classes (tracked_page 0))(0 := input_class(Value := Some (AccDesc (Some 2) (Some 2) True True)))\<rparr>"

definition stripped_page :: world where
  "stripped_page = (tracked_page 0)\<lparr>classes :=
     (classes (tracked_page 0))(0 := input_class(Value := None))\<rparr>"

text \<open>
  The tracked page after an environment has replaced the class-level descriptor of
  \<^verbatim>\<open>value\<close> by one whose getter (number 4) throws.
\<close>

definition throwing_page :: world where
  "throwing_page = (tracked_page 0)\<lparr>classes :=
     (classes (tracked_page 0))(0 := input_class(Value := Some (AccDesc (Some 4) (Some 0) True True)))\<rparr>"

text \<open>
  The sample page with a class whose \<^verbatim>\<open>value\<close> getter (number 3) answers \<^verbatim>\<open>null\<close>, and that
  page after \<^verbatim>\<open>track\<close> on node 0.
\<close>

definition null_page :: world where
  "null_page = page\<lparr>classes :=
     (classes page)(0 := input_class(Value := Some (AccDesc (Some 3) (Some 0) True True)))\<rparr>"

definition tracked_null_page :: world where
  "tracked_null_page =
     (case track dom_host False 0 null_page of Inl e \<Rightarrow> null_page | Inr w \<Rightarrow> w)"

section \<open>Basic facts\<close>

lemmas module_defs =
  track_def trackValueOnNode_def seed_currentValue_def get_prop_def class_get_prop_def
  classDescriptor_def valueField_of_def isCheckable_def toLowerCase_def lower_char_def
  getTracker_def bail_def descriptor_get_def descriptor_set_def new_closure_def
  defineProperty_accessor_def defineProperty_enumerable_def set_own_def call_hget_def
  call_hset_def call_get_opt_def call_set_opt_def installed_get_def installed_set_def
  dev_check_def checkFormFieldValueStringCoercion_def set_currentValue_def
  tracker_getValue_def tracker_setValue_def updateValueIfChanged_def getValueFromNode_def
  stopTracking_def tracker_stopTracking_def detachTracker_def delete_prop_def set_prop_def

lemmas sample_defs =
  dom_host_def dom_hget_def dom_hset_def page_def text_input_def checkbox_def
  spied_input_def classless_input_def input_class_def andThen_def returned_def
  world_after_def tracked_page_def host_input_def

text \<open>What a call of \<^verbatim>\<open>trackValueOnNode\<close> that returns a tracker has done.\<close>

lemma trackValueOnNode_TRef:
  assumes "trackValueOnNode env dev n w = Inr (TRef t, w')"
  shows "\<exists>s w2 g0 s0 d.
           seed_currentValue env dev n (valueField_of (heap w n)) w = Inr (s, w2) \<and>
           classDescriptor w n (valueField_of (heap w n)) = Some d \<and>
           desc_get d = Some g0 \<and> desc_set d = Some s0 \<and>
           own (heap w2 n) (valueField_of (heap w n)) = None \<and>
           t = next_closure w2 \<and>
           closures w' = (closures w2)(t := \<lparr>c_node = n, c_valueField = valueField_of (heap w n),
                             c_get = Some g0, c_set = Some s0, currentValue = JStr s\<rparr>) \<and>
           heap w' = (heap w2)(n := (heap w2 n)\<lparr>own := (own (heap w2 n))
                        (valueField_of (heap w n) :=
                           Some (AccDesc (Some (InstalledGet t)) (Some (InstalledSet t))
                                   (desc_enumerable d) True))\<rparr>) \<and>
           classes w' = classes w2 \<and> next_closure w' = Suc t \<and> diagnostics w' = diagnostics w2"
  using assms
  by (auto simp: trackValueOnNode_def Let_def bail_def descriptor_get_def descriptor_set_def
        new_closure_def defineProperty_accessor_def defineProperty_enumerable_def set_own_def
      split: sum.splits prod.splits if_splits option.splits)

lemma tracker_setValue_string:
  "tracker_setValue env dev t (JStr s) w = Inr (set_currentValue t (JStr s) w)"
  by (simp add: tracker_setValue_def dev_check_def checkFormFieldValueStringCoercion_def)

lemma tracker_getValue_set_currentValue:
  "tracker_getValue t (set_currentValue t v w) = v"
  by (simp add: tracker_getValue_def set_currentValue_def)

section \<open>The value extractor\<close>

text \<open>
  Claim C6.  \<^verbatim>\<open>getValueFromNode\<close> returns the empty string for an absent node.  A node is
  checkable exactly when its \<^verbatim>\<open>nodeName\<close>, in lower case, is \<^verbatim>\<open>input\<close> and its \<^verbatim>\<open>type\<close> is
  \<^verbatim>\<open>checkbox\<close> or \<^verbatim>\<open>radio\<close>.  For a checkable node the result is \<^verbatim>\<open>"true"\<close> or \<^verbatim>\<open>"false"\<close>
  and no other value, \<^verbatim>\<open>"true"\<close> exactly when the \<^verbatim>\<open>checked\<close> field reads as a true value.
  For any other node the result is what the \<^verbatim>\<open>value\<close> field reads, unmodified.  The
  function has no effect of its own: the world it returns is the one that reading the
  field returns (the given world, when the field is read by a native accessor or is a
  plain property).
\<close>

theorem getValueFromNode_cases:
  "getValueFromNode env None w = Inr (JStr [], w) \<and>
   (isCheckable (heap w n) \<longleftrightarrow>
      toLowerCase (nodeName (heap w n)) = ''input'' \<and>
      (nodeType (heap w n) = ''checkbox'' \<or> nodeType (heap w n) = ''radio'')) \<and>
   (isCheckable (heap w n) \<longrightarrow>
      (\<forall>v w'. getValueFromNode env (Some n) w = Inr (v, w') \<longrightarrow>
         v = JStr ''true'' \<or> v = JStr ''false'') \<and>
      (\<forall>c w'. get_prop env n Checked w = Inr (c, w') \<longrightarrow>
         getValueFromNode env (Some n) w =
           Inr (JStr (if truthy c then ''true'' else ''false''), w'))) \<and>
   (\<not> isCheckable (heap w n) \<longrightarrow>
      getValueFromNode env (Some n) w = get_prop env n Value w) \<and>
   (\<forall>v w'. getValueFromNode env (Some n) w = Inr (v, w') \<longrightarrow>
      (\<exists>c. get_prop env n (valueField_of (heap w n)) w = Inr (c, w'))) \<and>
   (\<forall>g s en cf. own (heap w n) (valueField_of (heap w n)) = None \<and>
      classDescriptor w n (valueField_of (heap w n)) = Some (AccDesc (Some g) s en cf) \<and>
      reads_slot env g (valueField_of (heap w n)) \<longrightarrow>
      world_after (getValueFromNode env (Some n) w) = Inr w)"
proof -
  have absent: "getValueFromNode env None w = Inr (JStr [], w)"
    by (simp add: getValueFromNode_def)
  have chk: "isCheckable (heap w n) \<longleftrightarrow>
      toLowerCase (nodeName (heap w n)) = ''input'' \<and>
      (nodeType (heap w n) = ''checkbox'' \<or> nodeType (heap w n) = ''radio'')"
    by (auto simp: isCheckable_def Let_def toLowerCase_def)
  have two: "isCheckable (heap w n) \<longrightarrow>
      (\<forall>v w'. getValueFromNode env (Some n) w = Inr (v, w') \<longrightarrow>
         v = JStr ''true'' \<or> v = JStr ''false'') \<and>
      (\<forall>c w'. get_prop env n Checked w = Inr (c, w') \<longrightarrow>
         getValueFromNode env (Some n) w =
           Inr (JStr (if truthy c then ''true'' else ''false''), w'))"
    by (auto simp: getValueFromNode_def split: sum.splits)
  have other: "\<not> isCheckable (heap w n) \<longrightarrow>
      getValueFromNode env (Some n) w = get_prop env n Value w"
    by (simp add: getValueFromNode_def)
  have frame: "\<forall>v w'. getValueFromNode env (Some n) w = Inr (v, w') \<longrightarrow>
      (\<exists>c. get_prop env n (valueField_of (heap w n)) w = Inr (c, w'))"
    by (auto simp: getValueFromNode_def valueField_of_def split: sum.splits if_splits)
  have pure: "\<forall>g s en cf. own (heap w n) (valueField_of (heap w n)) = None \<and>
      classDescriptor w n (valueField_of (heap w n)) = Some (AccDesc (Some g) s en cf) \<and>
      reads_slot env g (valueField_of (heap w n)) \<longrightarrow>
      world_after (getValueFromNode env (Some n) w) = Inr w"
    by (auto simp: getValueFromNode_def valueField_of_def get_prop_def class_get_prop_def
          call_hget_def reads_slot_def world_after_def split: sum.splits if_splits)
  from absent chk two other frame pure show ?thesis by blast
qed

theorem getValueFromNode_cases_witness:
  "isCheckable (heap page 1) \<and>
   getValueFromNode dom_host (Some 1) page = Inr (JStr ''false'', page) \<and>
   getValueFromNode dom_host (Some 1) (host_input 1 ''on'' True page) =
     Inr (JStr ''true'', host_input 1 ''on'' True page) \<and>
   \<not> isCheckable (heap page 0) \<and>
   getValueFromNode dom_host (Some 0) page = Inr (JStr ''a'', page) \<and>
   get_prop dom_host 0 Value page = Inr (JStr ''a'', page) \<and>
   reads_slot dom_host 0 Value \<and>
   world_after (getValueFromNode dom_host (Some 0) page) = Inr page"
  using getValueFromNode_cases [of dom_host page 1]
    getValueFromNode_cases [of dom_host "host_input 1 ''on'' True page" 1]
    getValueFromNode_cases [of dom_host page 0]
  by (simp add: module_defs sample_defs reads_slot_def slot_value_def)

section \<open>The public interface\<close>

text \<open>
  Claim C3.  \<^verbatim>\<open>updateValueIfChanged\<close> returns \<^verbatim>\<open>false\<close> for an absent node and \<^verbatim>\<open>true\<close> for
  a node that has no tracker (in both cases nothing changes).  For a node with the
  tracker \<open>t\<close> it takes the recorded value, reads the node afresh with
  \<^verbatim>\<open>getValueFromNode\<close>, and when the two differ it calls the tracker's \<^verbatim>\<open>setValue\<close> on the
  fresh value and returns \<^verbatim>\<open>true\<close>; when they are equal it returns \<^verbatim>\<open>false\<close>.  A fresh
  value that is a string is always stored, and is then the recorded value.
\<close>

theorem updateValueIfChanged_cases:
  "updateValueIfChanged env dev None w = Inr (False, w) \<and>
   ((\<forall>t. getTracker (heap w n) \<noteq> TRef t) \<longrightarrow>
      updateValueIfChanged env dev (Some n) w = Inr (True, w)) \<and>
   (\<forall>t v w1. getTracker (heap w n) = TRef t \<and>
      getValueFromNode env (Some n) w = Inr (v, w1) \<longrightarrow>
      updateValueIfChanged env dev (Some n) w =
        (if v \<noteq> tracker_getValue t w
         then (case tracker_setValue env dev t v w1 of
                 Inl e \<Rightarrow> Inl e
               | Inr w2 \<Rightarrow> Inr (True, w2))
         else Inr (False, w1))) \<and>
   (\<forall>t s w1. getTracker (heap w n) = TRef t \<and>
      getValueFromNode env (Some n) w = Inr (JStr s, w1) \<and>
      JStr s \<noteq> tracker_getValue t w \<longrightarrow>
      updateValueIfChanged env dev (Some n) w = Inr (True, set_currentValue t (JStr s) w1) \<and>
      tracker_getValue t (set_currentValue t (JStr s) w1) = JStr s)"
proof -
  have absent: "updateValueIfChanged env dev None w = Inr (False, w)"
    by (simp add: updateValueIfChanged_def)
  have untracked: "(\<forall>t. getTracker (heap w n) \<noteq> TRef t) \<longrightarrow>
      updateValueIfChanged env dev (Some n) w = Inr (True, w)"
    by (cases "getTracker (heap w n)") (simp_all add: updateValueIfChanged_def)
  have tracked: "\<forall>t v w1. getTracker (heap w n) = TRef t \<and>
      getValueFromNode env (Some n) w = Inr (v, w1) \<longrightarrow>
      updateValueIfChanged env dev (Some n) w =
        (if v \<noteq> tracker_getValue t w
         then (case tracker_setValue env dev t v w1 of
                 Inl e \<Rightarrow> Inl e
               | Inr w2 \<Rightarrow> Inr (True, w2))
         else Inr (False, w1))"
    by (simp add: updateValueIfChanged_def Let_def)
  have stored: "\<forall>t s w1. getTracker (heap w n) = TRef t \<and>
      getValueFromNode env (Some n) w = Inr (JStr s, w1) \<and>
      JStr s \<noteq> tracker_getValue t w \<longrightarrow>
      updateValueIfChanged env dev (Some n) w = Inr (True, set_currentValue t (JStr s) w1) \<and>
      tracker_getValue t (set_currentValue t (JStr s) w1) = JStr s"
    by (simp add: updateValueIfChanged_def Let_def tracker_setValue_string
          tracker_getValue_set_currentValue)
  from absent untracked tracked stored show ?thesis by blast
qed

theorem updateValueIfChanged_cases_witness:
  "(\<forall>t. getTracker (heap page 0) \<noteq> TRef t) \<and>
   updateValueIfChanged dom_host False (Some 0) page = Inr (True, page) \<and>
   getTracker (heap (tracked_page 0) 0) = TRef 0 \<and>
   getValueFromNode dom_host (Some 0) (tracked_page 0) = Inr (JStr ''a'', tracked_page 0) \<and>
   tracker_getValue 0 (tracked_page 0) = JStr ''a'' \<and>
   updateValueIfChanged dom_host False (Some 0) (tracked_page 0) = Inr (False, tracked_page 0) \<and>
   getValueFromNode dom_host (Some 0) (host_input 0 ''b'' False (tracked_page 0)) =
     Inr (JStr ''b'', host_input 0 ''b'' False (tracked_page 0)) \<and>
   tracker_getValue 0 (host_input 0 ''b'' False (tracked_page 0)) = JStr ''a'' \<and>
   updateValueIfChanged dom_host False (Some 0) (host_input 0 ''b'' False (tracked_page 0)) =
     Inr (True, set_currentValue 0 (JStr ''b'') (host_input 0 ''b'' False (tracked_page 0)))"
  using updateValueIfChanged_cases [of dom_host False page 0]
    updateValueIfChanged_cases [of dom_host False "tracked_page 0" 0]
    updateValueIfChanged_cases [of dom_host False "host_input 0 ''b'' False (tracked_page 0)" 0]
  by (simp add: module_defs sample_defs Let_def)

text \<open>
  Claim C8.  \<^verbatim>\<open>track\<close> on a node that has a tracker does nothing: the world is returned
  as it is, so no closure is created, no property is defined, and the node keeps the
  tracker reference it had.
\<close>

theorem track_idempotent:
  "getTracker (heap w n) = TRef t \<Longrightarrow>
   track env dev n w = Inr w \<and> getTracker (heap w n) = TRef t"
  by (simp add: track_def)

theorem track_idempotent_witness:
  "track dom_host False 0 page = Inr (tracked_page 0) \<and>
   getTracker (heap (tracked_page 0) 0) = TRef 0 \<and>
   track dom_host False 0 (tracked_page 0) = Inr (tracked_page 0) \<and>
   andThen (track dom_host False 0 page) (track dom_host False 0) = track dom_host False 0 page"
proof -
  have attached: "getTracker (heap (tracked_page 0) 0) = TRef 0"
    by (simp add: module_defs sample_defs Let_def)
  have first: "track dom_host False 0 page = Inr (tracked_page 0)"
    by (simp add: module_defs sample_defs Let_def)
  from track_idempotent [OF attached, of dom_host False] first attached
  show ?thesis by (simp add: andThen_def)
qed

section \<open>The bail path of the interceptor\<close>

text \<open>
  Claim C5.  \<^verbatim>\<open>trackValueOnNode\<close> first reads the field to seed the recorded value; let
  \<open>w2\<close> be the world this read returns (the given world, unless a getter of the host
  changed it).  If the node then owns a property of the field's name, or the class had no
  descriptor for the field, or that descriptor has no getter, or it has no setter, then
  \<^verbatim>\<open>trackValueOnNode\<close> returns \<^verbatim>\<open>undefined\<close> and the world \<open>w2\<close>: it defines no property,
  creates no closure and no tracker, and changes nothing else.
\<close>

theorem trackValueOnNode_bails:
  assumes "seed_currentValue env dev n (valueField_of (heap w n)) w = Inr (s, w2)"
      and "own (heap w2 n) (valueField_of (heap w n)) \<noteq> None \<or>
           classDescriptor w n (valueField_of (heap w n)) = None \<or>
           descriptor_get (classDescriptor w n (valueField_of (heap w n))) = None \<or>
           descriptor_set (classDescriptor w n (valueField_of (heap w n))) = None"
  shows "trackValueOnNode env dev n w = Inr (TUndefined, w2)"
  using assms by (simp add: trackValueOnNode_def Let_def bail_def)

theorem trackValueOnNode_bails_witness:
  "seed_currentValue dom_host True 2 (valueField_of (heap page 2)) page = Inr (''spy'', page) \<and>
   own (heap page 2) (valueField_of (heap page 2)) \<noteq> None \<and>
   trackValueOnNode dom_host True 2 page = Inr (TUndefined, page) \<and>
   seed_currentValue dom_host True 3 (valueField_of (heap page 3)) page =
     Inr (''undefined'', page) \<and>
   classDescriptor page 3 (valueField_of (heap page 3)) = None \<and>
   trackValueOnNode dom_host True 3 page = Inr (TUndefined, page)"
proof -
  have seed2: "seed_currentValue dom_host True 2 (valueField_of (heap page 2)) page =
      Inr (''spy'', page)"
    by (simp add: module_defs sample_defs)
  have own2: "own (heap page 2) (valueField_of (heap page 2)) \<noteq> None"
    by (simp add: module_defs sample_defs)
  have seed3: "seed_currentValue dom_host True 3 (valueField_of (heap page 3)) page =
      Inr (''undefined'', page)"
    by (simp add: module_defs sample_defs)
  have none3: "classDescriptor page 3 (valueField_of (heap page 3)) = None"
    by (simp add: module_defs sample_defs)
  from own2 have "own (heap page 2) (valueField_of (heap page 2)) \<noteq> None \<or>
      classDescriptor page 2 (valueField_of (heap page 2)) = None \<or>
      descriptor_get (classDescriptor page 2 (valueField_of (heap page 2))) = None \<or>
      descriptor_set (classDescriptor page 2 (valueField_of (heap page 2))) = None"
    by blast
  from trackValueOnNode_bails [OF seed2 this]
  have bail2: "trackValueOnNode dom_host True 2 page = Inr (TUndefined, page)" .
  from none3 have "own (heap page 3) (valueField_of (heap page 3)) \<noteq> None \<or>
      classDescriptor page 3 (valueField_of (heap page 3)) = None \<or>
      descriptor_get (classDescriptor page 3 (valueField_of (heap page 3))) = None \<or>
      descriptor_set (classDescriptor page 3 (valueField_of (heap page 3))) = None"
    by blast
  from trackValueOnNode_bails [OF seed3 this]
  have bail3: "trackValueOnNode dom_host True 3 page = Inr (TUndefined, page)" .
  from seed2 own2 bail2 seed3 none3 bail3 show ?thesis by blast
qed


section \<open>The installed accessors\<close>

text \<open>What \<^verbatim>\<open>track\<close> has done when it has attached a tracker that was not there.\<close>

lemma track_attaches:
  assumes "track env dev n w = Inr w1"
      and "getTracker (heap w n) \<noteq> TRef t"
      and "getTracker (heap w1 n) = TRef t"
  shows "\<exists>w'. trackValueOnNode env dev n w = Inr (TRef t, w') \<and>
           w1 = w'\<lparr>heap := (heap w')(n := (heap w' n)\<lparr>valueTracker := TRef t\<rparr>)\<rparr>"
  using assms
  by (cases "getTracker (heap w n)")
     (auto simp: track_def getTracker_def split: sum.splits prod.splits)

lemma track_captured:
  assumes "track env dev n w = Inr w1"
      and "getTracker (heap w n) \<noteq> TRef t"
      and "getTracker (heap w1 n) = TRef t"
  shows "\<exists>g0 s0 s. descriptor_get (classDescriptor w n (valueField_of (heap w n))) = Some g0 \<and>
           descriptor_set (classDescriptor w n (valueField_of (heap w n))) = Some s0 \<and>
           closures w1 t = \<lparr>c_node = n, c_valueField = valueField_of (heap w n),
             c_get = Some g0, c_set = Some s0, currentValue = JStr s\<rparr>"
proof -
  from track_attaches [OF assms] obtain w' where
    tv: "trackValueOnNode env dev n w = Inr (TRef t, w')" and
    w1: "w1 = w'\<lparr>heap := (heap w')(n := (heap w' n)\<lparr>valueTracker := TRef t\<rparr>)\<rparr>"
    by blast
  from trackValueOnNode_TRef [OF tv] w1 show ?thesis
    by (auto simp: descriptor_get_def descriptor_set_def)
qed

lemma same_captured_fields:
  assumes "same_captured w w1 t"
  shows "c_node (closures w t) = c_node (closures w1 t)"
    and "c_valueField (closures w t) = c_valueField (closures w1 t)"
    and "c_get (closures w t) = c_get (closures w1 t)"
    and "c_set (closures w t) = c_set (closures w1 t)"
proof -
  from assms have eq: "closures w t = (closures w1 t)\<lparr>currentValue := currentValue (closures w t)\<rparr>"
    by (simp add: same_captured_def)
  show "c_node (closures w t) = c_node (closures w1 t)" by (subst eq) simp
  show "c_valueField (closures w t) = c_valueField (closures w1 t)" by (subst eq) simp
  show "c_get (closures w t) = c_get (closures w1 t)" by (subst eq) simp
  show "c_set (closures w t) = c_set (closures w1 t)" by (subst eq) simp
qed

text \<open>
  Claim C1, as amended.  Let \<open>t\<close> be a tracker that \<^verbatim>\<open>track\<close> attached to the node \<open>n\<close>, and
  \<open>w\<close> any later world in which the closure of \<open>t\<close> still holds what it captured.  A read
  through the installed getter in \<open>w\<close> looks up the class-level descriptor of the field in
  \<open>w\<close> and is the call of that descriptor's getter when there is one; when the descriptor
  is absent or has no getter, it is the call of the getter \<open>g0\<close> that the class-level
  descriptor had when \<^verbatim>\<open>track\<close> ran.  There is always a getter to call, so the installed
  getter raises no error of its own: the read returns what the getter it delegates to
  returns, and it fails exactly when that getter throws, with the exception thrown.  A
  read of the field of a node that carries the installed getter is such a read.
\<close>

theorem installed_get_delegates:
  assumes "track env dev n w0 = Inr w1"
      and "getTracker (heap w0 n) \<noteq> TRef t"
      and "getTracker (heap w1 n) = TRef t"
      and "same_captured w w1 t"
  shows "\<exists>g0. descriptor_get (classDescriptor w0 n (valueField_of (heap w0 n))) = Some g0 \<and>
           installed_get env t this w =
             call_hget env
               (case descriptor_get (classDescriptor w n (valueField_of (heap w0 n))) of
                  None \<Rightarrow> g0
                | Some g \<Rightarrow> g) this w \<and>
           installed_get env t this w \<noteq> Inl TypeError \<and>
           (\<exists>g. delegate_get w t = Some g) \<and>
           (\<forall>g r. delegate_get w t = Some g \<and> hget env g this w = Inr r \<longrightarrow>
              installed_get env t this w = Inr r) \<and>
           (\<forall>g x. delegate_get w t = Some g \<and> hget env g this w = Inl x \<longrightarrow>
              installed_get env t this w = Inl (Thrown x)) \<and>
           (descriptor_get (own (heap w n) (valueField_of (heap w0 n))) = Some (InstalledGet t) \<longrightarrow>
              get_prop env n (valueField_of (heap w0 n)) w = installed_get env t n w)"
proof -
  from track_captured [OF assms(1-3)] obtain g0 s0 s where
    g0: "descriptor_get (classDescriptor w0 n (valueField_of (heap w0 n))) = Some g0" and
    c1: "closures w1 t = \<lparr>c_node = n, c_valueField = valueField_of (heap w0 n),
           c_get = Some g0, c_set = Some s0, currentValue = JStr s\<rparr>"
    by blast
  from same_captured_fields [OF assms(4)] c1 have
    cn: "c_node (closures w t) = n" and
    cf: "c_valueField (closures w t) = valueField_of (heap w0 n)" and
    cg: "c_get (closures w t) = Some g0"
    by simp_all
  have deleg: "installed_get env t this w =
      call_hget env
        (case descriptor_get (classDescriptor w n (valueField_of (heap w0 n))) of
           None \<Rightarrow> g0
         | Some g \<Rightarrow> g) this w"
    using cn cf cg
    by (auto simp: installed_get_def Let_def call_get_opt_def descriptor_get_def
          split: option.splits)
  have noerr: "installed_get env t this w \<noteq> Inl TypeError"
    by (simp add: deleg call_hget_def split: sum.splits)
  have some: "\<exists>g. delegate_get w t = Some g"
    using cg by (simp add: delegate_get_def Let_def split: option.splits)
  have ret: "\<forall>g r. delegate_get w t = Some g \<and> hget env g this w = Inr r \<longrightarrow>
      installed_get env t this w = Inr r"
    using cn cf cg
    by (auto simp: deleg delegate_get_def Let_def call_hget_def split: option.splits)
  have thr: "\<forall>g x. delegate_get w t = Some g \<and> hget env g this w = Inl x \<longrightarrow>
      installed_get env t this w = Inl (Thrown x)"
    using cn cf cg
    by (auto simp: deleg delegate_get_def Let_def call_hget_def split: option.splits)
  have viaprop: "descriptor_get (own (heap w n) (valueField_of (heap w0 n))) = Some (InstalledGet t) \<longrightarrow>
      get_prop env n (valueField_of (heap w0 n)) w = installed_get env t n w"
    by (auto simp: get_prop_def descriptor_get_def split: option.splits pdesc.splits)
  from g0 deleg noerr some ret thr viaprop show ?thesis by blast
qed

theorem installed_get_delegates_witness:
  "track dom_host False 0 page = Inr (tracked_page 0) \<and>
   getTracker (heap page 0) \<noteq> TRef 0 \<and>
   getTracker (heap (tracked_page 0) 0) = TRef 0 \<and>
   same_captured patched_page (tracked_page 0) 0 \<and>
   same_captured stripped_page (tracked_page 0) 0 \<and>
   installed_get dom_host 0 0 (tracked_page 0) = Inr (JStr ''a'', tracked_page 0) \<and>
   installed_get dom_host 0 0 patched_page = Inr (JStr ''patched'', patched_page) \<and>
   installed_get dom_host 0 0 stripped_page = Inr (JStr ''a'', stripped_page) \<and>
   same_captured throwing_page (tracked_page 0) 0 \<and>
   installed_get dom_host 0 0 throwing_page = Inl (Thrown 0) \<and>
   get_prop dom_host 0 Value patched_page = Inr (JStr ''patched'', patched_page)"
proof -
  have a: "track dom_host False 0 page = Inr (tracked_page 0)"
    by (simp add: module_defs sample_defs Let_def)
  have b: "getTracker (heap page 0) \<noteq> TRef 0"
    by (simp add: module_defs sample_defs)
  have c: "getTracker (heap (tracked_page 0) 0) = TRef 0"
    by (simp add: module_defs sample_defs Let_def)
  have d1: "same_captured patched_page (tracked_page 0) 0"
    by (simp add: same_captured_def patched_page_def)
  have d2: "same_captured stripped_page (tracked_page 0) 0"
    by (simp add: same_captured_def stripped_page_def)
  have e0: "installed_get dom_host 0 0 (tracked_page 0) = Inr (JStr ''a'', tracked_page 0)"
    by (simp add: module_defs sample_defs Let_def)
  have e1: "installed_get dom_host 0 0 patched_page = Inr (JStr ''patched'', patched_page)"
    by (simp add: module_defs sample_defs patched_page_def Let_def)
  have e2: "installed_get dom_host 0 0 stripped_page = Inr (JStr ''a'', stripped_page)"
    by (simp add: module_defs sample_defs stripped_page_def Let_def)
  have own1: "descriptor_get (own (heap patched_page 0) (valueField_of (heap page 0))) =
      Some (InstalledGet 0)"
    by (simp add: module_defs sample_defs patched_page_def Let_def)
  from installed_get_delegates [OF a b c d1, of 0] own1 e1
  have f1: "get_prop dom_host 0 (valueField_of (heap page 0)) patched_page =
      Inr (JStr ''patched'', patched_page)"
    by auto
  have vf: "valueField_of (heap page 0) = Value"
    by (simp add: module_defs sample_defs)
  have d3: "same_captured throwing_page (tracked_page 0) 0"
    by (simp add: same_captured_def throwing_page_def)
  have dg3: "delegate_get throwing_page 0 = Some 4"
    by (simp add: delegate_get_def module_defs sample_defs throwing_page_def Let_def)
  have th3: "hget dom_host 4 0 throwing_page = Inl 0"
    by (simp add: dom_host_def dom_hget_def)
  from installed_get_delegates [OF a b c d3, of 0] dg3 th3
  have e3: "installed_get dom_host 0 0 throwing_page = Inl (Thrown 0)"
    by blast
  from f1 vf a b c d1 d2 d3 e0 e1 e2 e3 show ?thesis by simp
qed

text \<open>
  Claim C1, as stated, fails in its last part: a read through the installed getter does
  fail when the getter it delegates to throws.  On the sample page node 0 is tracked; the
  environment then puts on the class a \<^verbatim>\<open>value\<close> descriptor whose getter throws; the read of
  \<^verbatim>\<open>node.value\<close> goes through the installed getter, which calls that getter (source line 93)
  and lets the exception pass.
\<close>

theorem read_fails_when_getter_throws:
  "track dom_host False 0 page = Inr (tracked_page 0) \<and>
   getTracker (heap page 0) \<noteq> TRef 0 \<and>
   getTracker (heap (tracked_page 0) 0) = TRef 0 \<and>
   getTracker (heap throwing_page 0) = TRef 0 \<and>
   same_captured throwing_page (tracked_page 0) 0 \<and>
   descriptor_get (own (heap throwing_page 0) Value) = Some (InstalledGet 0) \<and>
   descriptor_get (classDescriptor throwing_page 0 Value) = Some 4 \<and>
   installed_get dom_host 0 0 throwing_page = Inl (Thrown 0) \<and>
   get_prop dom_host 0 Value throwing_page = Inl (Thrown 0)"
proof -
  have a: "track dom_host False 0 page = Inr (tracked_page 0)"
    by (simp add: module_defs sample_defs Let_def)
  have b: "getTracker (heap page 0) \<noteq> TRef 0"
    by (simp add: module_defs sample_defs)
  have c: "getTracker (heap (tracked_page 0) 0) = TRef 0"
    by (simp add: module_defs sample_defs Let_def)
  have c': "getTracker (heap throwing_page 0) = TRef 0"
    by (simp add: module_defs sample_defs throwing_page_def Let_def)
  have d: "same_captured throwing_page (tracked_page 0) 0"
    by (simp add: same_captured_def throwing_page_def)
  have ow: "descriptor_get (own (heap throwing_page 0) Value) = Some (InstalledGet 0)"
    by (simp add: module_defs sample_defs throwing_page_def Let_def)
  have live: "descriptor_get (classDescriptor throwing_page 0 Value) = Some 4"
    by (simp add: module_defs sample_defs throwing_page_def Let_def)
  have ig: "installed_get dom_host 0 0 throwing_page = Inl (Thrown 0)"
    by (simp add: module_defs sample_defs throwing_page_def Let_def)
  have gp: "get_prop dom_host 0 Value throwing_page = Inl (Thrown 0)"
    by (simp add: module_defs sample_defs throwing_page_def Let_def)
  from a b c c' d ow live ig gp show ?thesis by blast
qed


text \<open>
  Claim C2.  Let \<open>t\<close> be a tracker that \<^verbatim>\<open>track\<close> attached to the node \<open>n\<close>, \<open>w\<close> any later
  world in which the closure of \<open>t\<close> still holds what it captured, and \<open>v\<close> a value with
  the string form \<open>s\<close>.  A write of \<open>v\<close> through the installed setter is the call of the
  class-level setter (the one of the descriptor as it is in \<open>w\<close>, else the captured one
  \<open>s0\<close>) in a world in which \<^verbatim>\<open>currentValue\<close> is already \<open>s\<close>: whatever the called setter
  reads from the tracker, it reads \<open>s\<close>.
\<close>

theorem installed_set_records_first:
  assumes "track env dev n w0 = Inr w1"
      and "getTracker (heap w0 n) \<noteq> TRef t"
      and "getTracker (heap w1 n) = TRef t"
      and "same_captured w w1 t"
      and "coerce_string env v = Inr s"
  shows "\<exists>s0. descriptor_set (classDescriptor w0 n (valueField_of (heap w0 n))) = Some s0 \<and>
           tracker_getValue t (set_currentValue t (JStr s) (dev_check dev v w)) = JStr s \<and>
           installed_set env dev t this v w =
             call_hset env
               (case descriptor_set (classDescriptor w n (valueField_of (heap w0 n))) of
                  None \<Rightarrow> s0
                | Some sl \<Rightarrow> sl) this v (set_currentValue t (JStr s) (dev_check dev v w))"
proof -
  from track_captured [OF assms(1-3)] obtain g0 s0 s' where
    s0: "descriptor_set (classDescriptor w0 n (valueField_of (heap w0 n))) = Some s0" and
    c1: "closures w1 t = \<lparr>c_node = n, c_valueField = valueField_of (heap w0 n),
           c_get = Some g0, c_set = Some s0, currentValue = JStr s'\<rparr>"
    by blast
  from same_captured_fields [OF assms(4)] c1 have
    cn: "c_node (closures w t) = n" and
    cf: "c_valueField (closures w t) = valueField_of (heap w0 n)" and
    cs: "c_set (closures w t) = Some s0"
    by simp_all
  have cell: "tracker_getValue t (set_currentValue t (JStr s) (dev_check dev v w)) = JStr s"
    by (rule tracker_getValue_set_currentValue)
  have deleg: "installed_set env dev t this v w =
      call_hset env
        (case descriptor_set (classDescriptor w n (valueField_of (heap w0 n))) of
           None \<Rightarrow> s0
         | Some sl \<Rightarrow> sl) this v (set_currentValue t (JStr s) (dev_check dev v w))"
    using cn cf cs assms(5)
    by (auto simp: installed_set_def Let_def call_set_opt_def descriptor_set_def
          set_currentValue_def classDescriptor_def dev_check_def
          checkFormFieldValueStringCoercion_def
          split: option.splits)
  from s0 cell deleg show ?thesis by blast
qed

theorem installed_set_records_first_witness:
  "track dom_host False 0 page = Inr (tracked_page 0) \<and>
   getTracker (heap page 0) \<noteq> TRef 0 \<and>
   getTracker (heap (tracked_page 0) 0) = TRef 0 \<and>
   same_captured patched_page (tracked_page 0) 0 \<and>
   coerce_string dom_host (JBool True) = Inr ''true'' \<and>
   tracker_getValue 0 patched_page = JStr ''a'' \<and>
   installed_set dom_host False 0 0 (JBool True) patched_page =
     Inr ((set_currentValue 0 (JStr ''true'') patched_page)\<lparr>diagnostics := [JStr ''true'']\<rparr>)"
proof -
  have a: "track dom_host False 0 page = Inr (tracked_page 0)"
    by (simp add: module_defs sample_defs Let_def)
  have b: "getTracker (heap page 0) \<noteq> TRef 0"
    by (simp add: module_defs sample_defs)
  have c: "getTracker (heap (tracked_page 0) 0) = TRef 0"
    by (simp add: module_defs sample_defs Let_def)
  have d: "same_captured patched_page (tracked_page 0) 0"
    by (simp add: same_captured_def patched_page_def)
  have e: "coerce_string dom_host (JBool True) = Inr ''true''"
    by simp
  have cur: "tracker_getValue 0 patched_page = JStr ''a''"
    by (simp add: module_defs sample_defs patched_page_def Let_def)
  have live: "descriptor_set (classDescriptor patched_page 0 (valueField_of (heap page 0))) = Some 2"
    by (simp add: module_defs sample_defs patched_page_def Let_def)
  have call: "call_hset dom_host 2 0 (JBool True)
      (set_currentValue 0 (JStr ''true'') (dev_check False (JBool True) patched_page)) =
      Inr ((set_currentValue 0 (JStr ''true'') patched_page)\<lparr>diagnostics := [JStr ''true'']\<rparr>)"
    by (simp add: module_defs sample_defs patched_page_def Let_def)
  from installed_set_records_first [OF a b c d e, of 0] live call
  have "installed_set dom_host False 0 0 (JBool True) patched_page =
      Inr ((set_currentValue 0 (JStr ''true'') patched_page)\<lparr>diagnostics := [JStr ''true'']\<rparr>)"
    by auto
  with a b c d e cur show ?thesis by simp
qed


section \<open>Detaching\<close>

lemma set_own_absent:
  assumes "own (heap w n) f = None"
  shows "set_own n f None w = w"
proof -
  from assms have "(own (heap w n))(f := None) = own (heap w n)"
    by (simp add: fun_upd_idem)
  then show ?thesis by (simp add: set_own_def)
qed

lemma delete_prop_configurable:
  assumes "\<forall>d. own (heap w n) f = Some d \<longrightarrow> desc_configurable d"
  shows "delete_prop n f w = Inr (set_own n f None w)"
  using assms by (cases "own (heap w n) f") (simp_all add: delete_prop_def set_own_absent)

text \<open>
  Claim C9.  On a node without a tracker \<^verbatim>\<open>stopTracking\<close> returns the world as it is.
  Let \<open>t\<close> be a tracker that \<^verbatim>\<open>track\<close> attached to the node \<open>n\<close>, and \<open>w\<close> any later world in
  which the node still holds \<open>t\<close>, the closure of \<open>t\<close> holds what it captured, and the own
  property of the tracked field (if any) is configurable, as the installed one is.  Then
  \<^verbatim>\<open>stopTracking\<close> returns \<open>w\<close> with \<^verbatim>\<open>_valueTracker\<close> set to \<^verbatim>\<open>null\<close> and the own property of
  the tracked field removed, and nothing else changed; from then on a read of the field
  is answered by the class alone.
\<close>

theorem stopTracking_detaches:
  "((\<forall>t. getTracker (heap w n) \<noteq> TRef t) \<longrightarrow> stopTracking n w = Inr w) \<and>
   (track env dev n w0 = Inr w1 \<and> getTracker (heap w0 n) \<noteq> TRef t \<and>
    getTracker (heap w1 n) = TRef t \<and> same_captured w w1 t \<and>
    getTracker (heap w n) = TRef t \<and>
    (\<forall>d. own (heap w n) (valueField_of (heap w0 n)) = Some d \<longrightarrow> desc_configurable d) \<longrightarrow>
      stopTracking n w =
        Inr (set_own n (valueField_of (heap w0 n)) None (detachTracker n w)) \<and>
      getTracker (heap (set_own n (valueField_of (heap w0 n)) None (detachTracker n w)) n) = TNull \<and>
      own (heap (set_own n (valueField_of (heap w0 n)) None (detachTracker n w)) n)
        (valueField_of (heap w0 n)) = None \<and>
      get_prop env n (valueField_of (heap w0 n))
          (set_own n (valueField_of (heap w0 n)) None (detachTracker n w)) =
        class_get_prop env n (valueField_of (heap w0 n))
          (set_own n (valueField_of (heap w0 n)) None (detachTracker n w)))"
proof -
  have untracked: "(\<forall>t. getTracker (heap w n) \<noteq> TRef t) \<longrightarrow> stopTracking n w = Inr w"
    by (cases "getTracker (heap w n)") (simp_all add: stopTracking_def)
  have tracked: "stopTracking n w =
        Inr (set_own n (valueField_of (heap w0 n)) None (detachTracker n w)) \<and>
      getTracker (heap (set_own n (valueField_of (heap w0 n)) None (detachTracker n w)) n) = TNull \<and>
      own (heap (set_own n (valueField_of (heap w0 n)) None (detachTracker n w)) n)
        (valueField_of (heap w0 n)) = None \<and>
      get_prop env n (valueField_of (heap w0 n))
          (set_own n (valueField_of (heap w0 n)) None (detachTracker n w)) =
        class_get_prop env n (valueField_of (heap w0 n))
          (set_own n (valueField_of (heap w0 n)) None (detachTracker n w))"
    if att: "track env dev n w0 = Inr w1" "getTracker (heap w0 n) \<noteq> TRef t"
         "getTracker (heap w1 n) = TRef t"
      and sc: "same_captured w w1 t"
      and held: "getTracker (heap w n) = TRef t"
      and conf: "\<forall>d. own (heap w n) (valueField_of (heap w0 n)) = Some d \<longrightarrow> desc_configurable d"
  proof -
    from track_captured [OF att] obtain g0 s0 s where
      c1: "closures w1 t = \<lparr>c_node = n, c_valueField = valueField_of (heap w0 n),
             c_get = Some g0, c_set = Some s0, currentValue = JStr s\<rparr>"
      by blast
    from same_captured_fields [OF sc] c1 have
      cn: "c_node (closures w t) = n" and
      cf: "c_valueField (closures w t) = valueField_of (heap w0 n)"
      by simp_all
    from conf have conf': "\<forall>d. own (heap (detachTracker n w) n) (valueField_of (heap w0 n)) = Some d
        \<longrightarrow> desc_configurable d"
      by (simp add: detachTracker_def)
    have stop: "stopTracking n w =
        Inr (set_own n (valueField_of (heap w0 n)) None (detachTracker n w))"
      using held cn cf delete_prop_configurable [OF conf']
      by (simp add: stopTracking_def tracker_stopTracking_def Let_def)
    have null: "getTracker (heap (set_own n (valueField_of (heap w0 n)) None (detachTracker n w)) n)
        = TNull"
      by (simp add: set_own_def detachTracker_def getTracker_def)
    have gone: "own (heap (set_own n (valueField_of (heap w0 n)) None (detachTracker n w)) n)
        (valueField_of (heap w0 n)) = None"
      by (simp add: set_own_def)
    from gone have reverted: "get_prop env n (valueField_of (heap w0 n))
          (set_own n (valueField_of (heap w0 n)) None (detachTracker n w)) =
        class_get_prop env n (valueField_of (heap w0 n))
          (set_own n (valueField_of (heap w0 n)) None (detachTracker n w))"
      by (simp add: get_prop_def)
    from stop null gone reverted show ?thesis by blast
  qed
  from untracked tracked show ?thesis by blast
qed

theorem stopTracking_detaches_witness:
  "(\<forall>t. getTracker (heap page 0) \<noteq> TRef t) \<and>
   stopTracking 0 page = Inr page \<and>
   track dom_host False 0 page = Inr (tracked_page 0) \<and>
   getTracker (heap (tracked_page 0) 0) = TRef 0 \<and>
   get_prop dom_host 0 Value (tracked_page 0) = installed_get dom_host 0 0 (tracked_page 0) \<and>
   stopTracking 0 (tracked_page 0) = Inr (set_own 0 Value None (detachTracker 0 (tracked_page 0))) \<and>
   heap (set_own 0 Value None (detachTracker 0 (tracked_page 0))) 0 = text_input\<lparr>valueTracker := TNull\<rparr> \<and>
   get_prop dom_host 0 Value (set_own 0 Value None (detachTracker 0 (tracked_page 0))) =
     class_get_prop dom_host 0 Value (set_own 0 Value None (detachTracker 0 (tracked_page 0)))"
proof -
  have a: "track dom_host False 0 page = Inr (tracked_page 0)"
    by (simp add: module_defs sample_defs Let_def)
  have b: "getTracker (heap page 0) \<noteq> TRef 0"
    by (simp add: module_defs sample_defs)
  have b': "\<forall>t. getTracker (heap page 0) \<noteq> TRef t"
    by (simp add: module_defs sample_defs)
  have c: "getTracker (heap (tracked_page 0) 0) = TRef 0"
    by (simp add: module_defs sample_defs Let_def)
  have d: "same_captured (tracked_page 0) (tracked_page 0) 0"
    by (simp add: same_captured_def)
  have e: "\<forall>d. own (heap (tracked_page 0) 0) (valueField_of (heap page 0)) = Some d
      \<longrightarrow> desc_configurable d"
    by (simp add: module_defs sample_defs Let_def)
  have vf: "valueField_of (heap page 0) = Value"
    by (simp add: module_defs sample_defs)
  have g: "get_prop dom_host 0 Value (tracked_page 0) = installed_get dom_host 0 0 (tracked_page 0)"
    by (simp add: module_defs sample_defs Let_def)
  have h: "heap (set_own 0 Value None (detachTracker 0 (tracked_page 0))) 0 =
      text_input\<lparr>valueTracker := TNull\<rparr>"
    by (simp add: module_defs sample_defs Let_def)
  from stopTracking_detaches [of page 0 dom_host False page "tracked_page 0" 0] b'
  have s0: "stopTracking 0 page = Inr page" by blast
  from stopTracking_detaches [of "tracked_page 0" 0 dom_host False page "tracked_page 0" 0]
    a b c d e vf
  have s1: "stopTracking 0 (tracked_page 0) =
        Inr (set_own 0 Value None (detachTracker 0 (tracked_page 0))) \<and>
      get_prop dom_host 0 Value (set_own 0 Value None (detachTracker 0 (tracked_page 0))) =
        class_get_prop dom_host 0 Value (set_own 0 Value None (detachTracker 0 (tracked_page 0)))"
    by simp
  from b' s0 a c g s1 h show ?thesis by blast
qed

section \<open>The recorded value is a string\<close>

text \<open>
  Claim C10.  The cell \<^verbatim>\<open>currentValue\<close> of a tracker holds a string: it does when \<^verbatim>\<open>track\<close>
  has attached the tracker; it does after \<^verbatim>\<open>setValue\<close>, whatever the argument; and when the
  installed setter is called, whatever the argument, the cell holds a string at the moment
  the class-level setter is called, and still does when the write returns, provided the
  setters of the host (which can reach the cell only through the tracker) keep it a string.
\<close>

theorem currentValue_always_string:
  "(track env dev n w0 = Inr w1 \<and> getTracker (heap w0 n) \<noteq> TRef t \<and>
    getTracker (heap w1 n) = TRef t \<longrightarrow> is_string (tracker_getValue t w1)) \<and>
   (\<forall>w'. tracker_setValue env dev t v w = Inr w' \<longrightarrow> is_string (tracker_getValue t w')) \<and>
   (\<forall>w'. installed_set env dev t this v w = Inr w' \<longrightarrow>
      (\<exists>s. coerce_string env v = Inr s \<and>
           tracker_getValue t (set_currentValue t (JStr s) (dev_check dev v w)) = JStr s) \<and>
      (host_keeps_string env t \<longrightarrow> is_string (tracker_getValue t w')))"
proof -
  have seeded: "is_string (tracker_getValue t w1)"
    if att: "track env dev n w0 = Inr w1" "getTracker (heap w0 n) \<noteq> TRef t"
         "getTracker (heap w1 n) = TRef t"
  proof -
    from track_captured [OF att] obtain g0 s0 s where
      "closures w1 t = \<lparr>c_node = n, c_valueField = valueField_of (heap w0 n),
             c_get = Some g0, c_set = Some s0, currentValue = JStr s\<rparr>"
      by blast
    then show ?thesis by (simp add: tracker_getValue_def)
  qed
  have by_setValue: "\<forall>w'. tracker_setValue env dev t v w = Inr w' \<longrightarrow>
      is_string (tracker_getValue t w')"
    by (auto simp: tracker_setValue_def Let_def tracker_getValue_set_currentValue
          split: sum.splits)
  have by_setter: "(\<exists>s. coerce_string env v = Inr s \<and>
           tracker_getValue t (set_currentValue t (JStr s) (dev_check dev v w)) = JStr s) \<and>
      (host_keeps_string env t \<longrightarrow> is_string (tracker_getValue t w'))"
    if run: "installed_set env dev t this v w = Inr w'" for w'
  proof -
    from run obtain s where s: "coerce_string env v = Inr s"
      by (auto simp: installed_set_def Let_def split: sum.splits)
    let ?w2 = "set_currentValue t (JStr s) (dev_check dev v w)"
    have cell: "tracker_getValue t ?w2 = JStr s"
      by (rule tracker_getValue_set_currentValue)
    from run s obtain f where call: "call_set_opt env f this v ?w2 = Inr w'"
      by (auto simp: installed_set_def Let_def split: if_splits)
    then obtain sid where "hset env sid this v ?w2 = Inr w'"
      by (auto simp: call_set_opt_def call_hset_def split: option.splits sum.splits)
    with cell have "host_keeps_string env t \<longrightarrow> is_string (tracker_getValue t w')"
      unfolding host_keeps_string_def
      by (metis is_string.simps(1))
    with s cell show ?thesis by blast
  qed
  from seeded by_setValue by_setter show ?thesis by blast
qed

theorem currentValue_always_string_witness:
  "track dom_host False 0 page = Inr (tracked_page 0) \<and>
   getTracker (heap page 0) \<noteq> TRef 0 \<and>
   getTracker (heap (tracked_page 0) 0) = TRef 0 \<and>
   is_string (tracker_getValue 0 (tracked_page 0)) \<and>
   tracker_setValue dom_host False 0 JNull (tracked_page 0) =
     Inr (set_currentValue 0 (JStr ''null'') (tracked_page 0)) \<and>
   is_string (tracker_getValue 0 (set_currentValue 0 (JStr ''null'') (tracked_page 0))) \<and>
   host_keeps_string dom_host 0 \<and>
   installed_set dom_host False 0 0 (JBool False) (tracked_page 0) =
     Inr (host_input 0 [] False (set_currentValue 0 (JStr ''false'') (tracked_page 0))) \<and>
   is_string (tracker_getValue 0
     (host_input 0 [] False (set_currentValue 0 (JStr ''false'') (tracked_page 0))))"
proof -
  have a: "track dom_host False 0 page = Inr (tracked_page 0)"
    by (simp add: module_defs sample_defs Let_def)
  have b: "getTracker (heap page 0) \<noteq> TRef 0"
    by (simp add: module_defs sample_defs)
  have c: "getTracker (heap (tracked_page 0) 0) = TRef 0"
    by (simp add: module_defs sample_defs Let_def)
  have sv: "tracker_setValue dom_host False 0 JNull (tracked_page 0) =
      Inr (set_currentValue 0 (JStr ''null'') (tracked_page 0))"
    by (simp add: tracker_setValue_def dev_check_def)
  have keeps: "host_keeps_string dom_host 0"
    by (auto simp: host_keeps_string_def dom_host_def dom_hset_def tracker_getValue_def
          split: if_splits)
  have wr: "installed_set dom_host False 0 0 (JBool False) (tracked_page 0) =
      Inr (host_input 0 [] False (set_currentValue 0 (JStr ''false'') (tracked_page 0)))"
    by (simp add: module_defs sample_defs Let_def)
  note inst = currentValue_always_string [of dom_host False 0 page "tracked_page 0" 0 JNull
    "tracked_page 0"]
  from inst a b c have seeded: "is_string (tracker_getValue 0 (tracked_page 0))"
    by blast
  from inst sv
  have str: "is_string (tracker_getValue 0 (set_currentValue 0 (JStr ''null'') (tracked_page 0)))"
    by blast
  from currentValue_always_string [of dom_host False 0 page "tracked_page 0" 0 "JBool False"
    "tracked_page 0" 0] wr keeps
  have str': "is_string (tracker_getValue 0
     (host_input 0 [] False (set_currentValue 0 (JStr ''false'') (tracked_page 0))))"
    by blast
  from a b c seeded sv str keeps wr str' show ?thesis by blast
qed


section \<open>Change detection\<close>

lemma coerce_slot_value: "coerce_string env (slot_value f nd) = Inr (observed f nd)"
  by (cases f) (simp_all add: slot_value_def observed_def)

lemma safely_coercible_slot_value: "safely_coercible (slot_value f nd)"
  by (cases f) (simp_all add: slot_value_def)

lemma get_prop_native:
  assumes "own (heap w n) f = None"
      and "classDescriptor w n f = Some d"
      and "desc_get d = Some g"
      and "reads_slot env g f"
  shows "get_prop env n f w = Inr (slot_value f (heap w n), w)"
  using assms
  by (cases d) (simp_all add: get_prop_def class_get_prop_def call_hget_def reads_slot_def)

lemma seed_native:
  assumes "own (heap w n) f = None"
      and "classDescriptor w n f = Some d"
      and "desc_get d = Some g"
      and "reads_slot env g f"
  shows "seed_currentValue env dev n f w = Inr (observed f (heap w n), w)"
  by (simp add: seed_currentValue_def get_prop_native [OF assms] coerce_slot_value
        checkFormFieldValueStringCoercion_def safely_coercible_slot_value)

lemma descriptor_get_None: "descriptor_get None = None"
  by (simp add: descriptor_get_def)

lemma installed_get_delegate:
  "installed_get env t this w = call_get_opt env (delegate_get w t) this w"
proof (cases "descriptor_get (classDescriptor w (c_node (closures w t))
                (c_valueField (closures w t)))")
  case None
  then show ?thesis by (simp add: installed_get_def delegate_get_def Let_def)
next
  case (Some g)
  then have "classDescriptor w (c_node (closures w t)) (c_valueField (closures w t)) \<noteq> None"
    by (cases "classDescriptor w (c_node (closures w t)) (c_valueField (closures w t))")
       (simp_all add: descriptor_get_None)
  with Some show ?thesis by (auto simp: installed_get_def delegate_get_def Let_def)
qed

lemma installed_get_native:
  assumes "delegate_get w t = Some g"
      and "reads_slot env g f"
  shows "installed_get env t n w = Inr (slot_value f (heap w n), w)"
  using assms
  by (simp add: installed_get_delegate call_get_opt_def call_hget_def reads_slot_def)

text \<open>What \<^verbatim>\<open>getValueFromNode\<close> reads on a tracked node whose field is read natively.\<close>

lemma intercepting_reads:
  assumes "intercepting env w n t"
  shows "getValueFromNode env (Some n) w =
           Inr (JStr (observed (valueField_of (heap w n)) (heap w n)), w)"
proof -
  from assms obtain g where
    cn: "c_node (closures w t) = n" and
    cf: "c_valueField (closures w t) = valueField_of (heap w n)" and
    ow: "descriptor_get (own (heap w n) (valueField_of (heap w n))) = Some (InstalledGet t)" and
    dg: "delegate_get w t = Some g" and
    rs: "reads_slot env g (valueField_of (heap w n))"
    by (auto simp: intercepting_def)
  from ow have "get_prop env n (valueField_of (heap w n)) w = installed_get env t n w"
    by (auto simp: get_prop_def descriptor_get_def split: option.splits pdesc.splits)
  with installed_get_native [OF dg rs]
  have rd: "get_prop env n (valueField_of (heap w n)) w =
      Inr (slot_value (valueField_of (heap w n)) (heap w n), w)"
    by simp
  show ?thesis
  proof (cases "isCheckable (heap w n)")
    case True
    with rd show ?thesis
      by (simp add: getValueFromNode_def valueField_of_def slot_value_def observed_def)
  next
    case False
    with rd show ?thesis
      by (simp add: getValueFromNode_def valueField_of_def slot_value_def observed_def)
  qed
qed

lemma valueField_of_cong:
  "nodeName nd' = nodeName nd \<Longrightarrow> nodeType nd' = nodeType nd \<Longrightarrow>
   valueField_of nd' = valueField_of nd"
  by (simp add: valueField_of_def isCheckable_def)

text \<open>
  \<^verbatim>\<open>track\<close> on a node that does not own the field and whose class-level getter is native
  leaves the node tracked, with the recorded value in step with the control.
\<close>

lemma track_intercepting:
  assumes att: "track env dev n w = Inr w1" "getTracker (heap w n) \<noteq> TRef t"
        "getTracker (heap w1 n) = TRef t"
      and notown: "own (heap w n) (valueField_of (heap w n)) = None"
      and native: "\<forall>g. descriptor_get (classDescriptor w n (valueField_of (heap w n))) = Some g
             \<longrightarrow> reads_slot env g (valueField_of (heap w n))"
  shows "intercepting env w1 n t \<and>
         tracker_getValue t w1 = JStr (observed (valueField_of (heap w1 n)) (heap w1 n))"
proof -
  let ?f = "valueField_of (heap w n)"
  from track_attaches [OF att] obtain w' where
    tv: "trackValueOnNode env dev n w = Inr (TRef t, w')" and
    w1: "w1 = w'\<lparr>heap := (heap w')(n := (heap w' n)\<lparr>valueTracker := TRef t\<rparr>)\<rparr>"
    by blast
  from trackValueOnNode_TRef [OF tv] obtain s w2 g0 s0 d where
    seed: "seed_currentValue env dev n ?f w = Inr (s, w2)" and
    cd: "classDescriptor w n ?f = Some d" and
    dg: "desc_get d = Some g0" and
    cl: "closures w' = (closures w2)(t := \<lparr>c_node = n, c_valueField = ?f,
           c_get = Some g0, c_set = Some s0, currentValue = JStr s\<rparr>)" and
    hp: "heap w' = (heap w2)(n := (heap w2 n)\<lparr>own := (own (heap w2 n))
           (?f := Some (AccDesc (Some (InstalledGet t)) (Some (InstalledSet t))
              (desc_enumerable d) True))\<rparr>)" and
    cs: "classes w' = classes w2"
    by blast
  from cd dg native have rs: "reads_slot env g0 ?f"
    by (simp add: descriptor_get_def)
  have sn: "seed_currentValue env dev n ?f w = Inr (observed ?f (heap w n), w)"
    by (rule seed_native [OF notown cd dg rs])
  from seed sn have s: "s = observed ?f (heap w n)"
    by auto
  from seed sn have w2: "w2 = w"
    by auto
  have heap1: "heap w1 n = (heap w n)\<lparr>own := (own (heap w n))
           (?f := Some (AccDesc (Some (InstalledGet t)) (Some (InstalledSet t))
              (desc_enumerable d) True)), valueTracker := TRef t\<rparr>"
    by (simp add: w1 hp w2)
  have clo1: "closures w1 t = \<lparr>c_node = n, c_valueField = ?f,
           c_get = Some g0, c_set = Some s0, currentValue = JStr s\<rparr>"
    by (simp add: w1 cl)
  have cls1: "classes w1 = classes w"
    by (simp add: w1 cs w2)
  have vf1: "valueField_of (heap w1 n) = ?f"
    by (rule valueField_of_cong) (simp_all add: heap1)
  have cd1: "classDescriptor w1 n ?f = Some d"
    using cd by (simp add: classDescriptor_def cls1 heap1)
  have dg1: "delegate_get w1 t = Some g0"
    by (simp add: delegate_get_def Let_def clo1 cd1 descriptor_get_def dg)
  have own1: "descriptor_get (own (heap w1 n) ?f) = Some (InstalledGet t)"
    by (simp add: heap1 descriptor_get_def)
  have obs1: "observed ?f (heap w1 n) = observed ?f (heap w n)"
    by (cases ?f) (simp_all add: observed_def heap1)
  have int: "intercepting env w1 n t"
    unfolding intercepting_def vf1
    using att(3) clo1 own1 dg1 rs by simp
  have rec: "tracker_getValue t w1 = JStr (observed (valueField_of (heap w1 n)) (heap w1 n))"
    by (simp add: tracker_getValue_def clo1 s vf1 obs1)
  from int rec show ?thesis by blast
qed

lemma intercepting_host_input:
  assumes "intercepting env w n t"
  shows "intercepting env (host_input n s b w) n t"
proof -
  have vf: "valueField_of (heap (host_input n s b w) n) = valueField_of (heap w n)"
    by (rule valueField_of_cong) (simp_all add: host_input_def)
  have dg: "delegate_get (host_input n s b w) t = delegate_get w t"
    by (simp add: delegate_get_def classDescriptor_def host_input_def Let_def)
  from assms show ?thesis
    unfolding intercepting_def vf dg
    by (simp add: host_input_def getTracker_def)
qed

lemma intercepting_set_currentValue:
  assumes "intercepting env w n t"
  shows "intercepting env (set_currentValue t v w) n t"
proof -
  have dg: "delegate_get (set_currentValue t v w) t = delegate_get w t"
    by (simp add: delegate_get_def classDescriptor_def set_currentValue_def Let_def
          split: option.splits)
  from assms show ?thesis
    unfolding intercepting_def dg
    by (simp add: set_currentValue_def getTracker_def)
qed

text \<open>
  Claim C7, as amended.  Let \<^verbatim>\<open>track\<close> attach the tracker \<open>t\<close> to a node that does not own
  the field and whose class-level getter reads the control natively (a string for
  \<^verbatim>\<open>value\<close>, a boolean for \<^verbatim>\<open>checked\<close>).  Then \<^verbatim>\<open>updateValueIfChanged\<close>, called at once,
  returns \<^verbatim>\<open>false\<close> and changes nothing: the recorded value is the string that
  \<^verbatim>\<open>getValueFromNode\<close> reads.
\<close>

theorem track_then_update_unchanged:
  assumes "track env dev n w = Inr w1"
      and "getTracker (heap w n) \<noteq> TRef t"
      and "getTracker (heap w1 n) = TRef t"
      and "own (heap w n) (valueField_of (heap w n)) = None"
      and "\<forall>g. descriptor_get (classDescriptor w n (valueField_of (heap w n))) = Some g
             \<longrightarrow> reads_slot env g (valueField_of (heap w n))"
  shows "updateValueIfChanged env dev (Some n) w1 = Inr (False, w1) \<and>
         getValueFromNode env (Some n) w1 = Inr (tracker_getValue t w1, w1)"
proof -
  from track_intercepting [OF assms] have
    int: "intercepting env w1 n t" and
    rec: "tracker_getValue t w1 = JStr (observed (valueField_of (heap w1 n)) (heap w1 n))"
    by simp_all
  from intercepting_reads [OF int] rec
  have rd: "getValueFromNode env (Some n) w1 = Inr (tracker_getValue t w1, w1)"
    by simp
  with assms(3) have "updateValueIfChanged env dev (Some n) w1 = Inr (False, w1)"
    by (simp add: updateValueIfChanged_def Let_def)
  with rd show ?thesis by blast
qed

theorem track_then_update_unchanged_witness:
  "track dom_host True 1 page = Inr (tracked_page 1) \<and>
   getTracker (heap page 1) \<noteq> TRef 0 \<and>
   getTracker (heap (tracked_page 1) 1) = TRef 0 \<and>
   own (heap page 1) (valueField_of (heap page 1)) = None \<and>
   valueField_of (heap page 1) = Checked \<and>
   reads_slot dom_host 1 Checked \<and>
   tracker_getValue 0 (tracked_page 1) = JStr ''false'' \<and>
   updateValueIfChanged dom_host True (Some 1) (tracked_page 1) = Inr (False, tracked_page 1)"
proof -
  have a: "track dom_host True 1 page = Inr (tracked_page 1)"
    by (simp add: module_defs sample_defs Let_def)
  have b: "getTracker (heap page 1) \<noteq> TRef 0"
    by (simp add: module_defs sample_defs)
  have c: "getTracker (heap (tracked_page 1) 1) = TRef 0"
    by (simp add: module_defs sample_defs Let_def)
  have vf: "valueField_of (heap page 1) = Checked"
    by (simp add: module_defs sample_defs)
  have d: "own (heap page 1) (valueField_of (heap page 1)) = None"
    by (simp add: module_defs sample_defs)
  have rs: "reads_slot dom_host 1 Checked"
    by (simp add: reads_slot_def slot_value_def dom_host_def dom_hget_def)
  have e: "\<forall>g. descriptor_get (classDescriptor page 1 (valueField_of (heap page 1))) = Some g
      \<longrightarrow> reads_slot dom_host g (valueField_of (heap page 1))"
    using rs by (simp add: vf) (simp add: module_defs sample_defs)
  have cur: "tracker_getValue 0 (tracked_page 1) = JStr ''false''"
    by (simp add: module_defs sample_defs Let_def)
  from track_then_update_unchanged [OF a b c d e] a b c d vf rs cur
  show ?thesis by blast
qed

text \<open>
  Claim C7, as stated, fails on a node whose field does not read as a string.  On the
  sample page with a class whose \<^verbatim>\<open>value\<close> getter answers \<^verbatim>\<open>null\<close>, \<^verbatim>\<open>track\<close> attaches a tracker to
  node 0 and records the string \<open>null\<close> (source line 64); \<^verbatim>\<open>getValueFromNode\<close> then reads
  \<^verbatim>\<open>null\<close> itself, which is not that string (source line 164), so \<^verbatim>\<open>updateValueIfChanged\<close>,
  called at once, returns \<^verbatim>\<open>true\<close>.
\<close>

theorem track_then_update_reports_null:
  "track dom_host False 0 null_page = Inr tracked_null_page \<and>
   getTracker (heap null_page 0) \<noteq> TRef 0 \<and>
   getTracker (heap tracked_null_page 0) = TRef 0 \<and>
   own (heap null_page 0) Value = None \<and>
   tracker_getValue 0 tracked_null_page = JStr ''null'' \<and>
   getValueFromNode dom_host (Some 0) tracked_null_page = Inr (JNull, tracked_null_page) \<and>
   returned (updateValueIfChanged dom_host False (Some 0) tracked_null_page) = Inr True"
proof -
  have a: "track dom_host False 0 null_page = Inr tracked_null_page"
    by (simp add: module_defs sample_defs null_page_def tracked_null_page_def Let_def)
  have b: "getTracker (heap null_page 0) \<noteq> TRef 0"
    by (simp add: module_defs sample_defs null_page_def)
  have c: "getTracker (heap tracked_null_page 0) = TRef 0"
    by (simp add: module_defs sample_defs null_page_def tracked_null_page_def Let_def)
  have d: "own (heap null_page 0) Value = None"
    by (simp add: module_defs sample_defs null_page_def)
  have cur: "tracker_getValue 0 tracked_null_page = JStr ''null''"
    by (simp add: module_defs sample_defs null_page_def tracked_null_page_def Let_def)
  have rd: "getValueFromNode dom_host (Some 0) tracked_null_page = Inr (JNull, tracked_null_page)"
    by (simp add: module_defs sample_defs null_page_def tracked_null_page_def Let_def)
  have upd: "returned (updateValueIfChanged dom_host False (Some 0) tracked_null_page) = Inr True"
    by (simp add: module_defs sample_defs null_page_def tracked_null_page_def Let_def)
  from a b c d cur rd upd show ?thesis by blast
qed

text \<open>
  Claim C4, as amended.  Let the node \<open>n\<close> be tracked by \<open>t\<close>, the field read natively,
  and the recorded value in step with the control.  When the host changes the internal
  state of the control without calling the node's setter (the user types or clicks), so
  that the string the control shows changes, the next \<^verbatim>\<open>updateValueIfChanged\<close> records the
  new string and returns \<^verbatim>\<open>true\<close>, and the call that follows returns \<^verbatim>\<open>false\<close> and changes
  nothing.
\<close>

theorem host_change_reported_once:
  assumes "intercepting env w n t"
      and "tracker_getValue t w = JStr (observed (valueField_of (heap w n)) (heap w n))"
      and "observed (valueField_of (heap w n)) (heap (host_input n s b w) n) \<noteq>
           observed (valueField_of (heap w n)) (heap w n)"
  shows "updateValueIfChanged env dev (Some n) (host_input n s b w) =
           Inr (True, set_currentValue t
                  (JStr (observed (valueField_of (heap w n)) (heap (host_input n s b w) n)))
                  (host_input n s b w)) \<and>
         updateValueIfChanged env dev (Some n)
             (set_currentValue t
                (JStr (observed (valueField_of (heap w n)) (heap (host_input n s b w) n)))
                (host_input n s b w)) =
           Inr (False, set_currentValue t
                  (JStr (observed (valueField_of (heap w n)) (heap (host_input n s b w) n)))
                  (host_input n s b w))"
proof -
  let ?f = "valueField_of (heap w n)"
  let ?wi = "host_input n s b w"
  let ?new = "JStr (observed ?f (heap ?wi n))"
  let ?wu = "set_currentValue t ?new ?wi"
  have vf: "valueField_of (heap ?wi n) = ?f"
    by (rule valueField_of_cong) (simp_all add: host_input_def)
  have int_i: "intercepting env ?wi n t"
    by (rule intercepting_host_input [OF assms(1)])
  from intercepting_reads [OF int_i] vf
  have rd_i: "getValueFromNode env (Some n) ?wi = Inr (?new, ?wi)"
    by simp
  have held_i: "getTracker (heap ?wi n) = TRef t"
    using int_i by (simp add: intercepting_def)
  have last_i: "tracker_getValue t ?wi = tracker_getValue t w"
    by (simp add: tracker_getValue_def host_input_def)
  from assms(2,3) last_i have differ: "?new \<noteq> tracker_getValue t ?wi"
    by simp
  from held_i rd_i differ
  have first: "updateValueIfChanged env dev (Some n) ?wi = Inr (True, ?wu)"
    by (simp add: updateValueIfChanged_def Let_def tracker_setValue_string)
  have int_u: "intercepting env ?wu n t"
    by (rule intercepting_set_currentValue [OF int_i])
  have heap_u: "heap ?wu = heap ?wi"
    by (simp add: set_currentValue_def)
  from intercepting_reads [OF int_u] vf heap_u
  have rd_u: "getValueFromNode env (Some n) ?wu = Inr (?new, ?wu)"
    by simp
  have held_u: "getTracker (heap ?wu n) = TRef t"
    using int_u by (simp add: intercepting_def)
  have last_u: "tracker_getValue t ?wu = ?new"
    by (rule tracker_getValue_set_currentValue)
  from held_u rd_u last_u
  have second: "updateValueIfChanged env dev (Some n) ?wu = Inr (False, ?wu)"
    by (simp add: updateValueIfChanged_def Let_def)
  from first second show ?thesis by blast
qed

theorem host_change_reported_once_witness:
  "track dom_host False 1 page = Inr (tracked_page 1) \<and>
   intercepting dom_host (tracked_page 1) 1 0 \<and>
   tracker_getValue 0 (tracked_page 1) = JStr ''false'' \<and>
   observed Checked (heap (tracked_page 1) 1) = ''false'' \<and>
   observed Checked (heap (host_input 1 ''on'' True (tracked_page 1)) 1) = ''true'' \<and>
   updateValueIfChanged dom_host False (Some 1) (host_input 1 ''on'' True (tracked_page 1)) =
     Inr (True, set_currentValue 0 (JStr ''true'') (host_input 1 ''on'' True (tracked_page 1))) \<and>
   updateValueIfChanged dom_host False (Some 1)
       (set_currentValue 0 (JStr ''true'') (host_input 1 ''on'' True (tracked_page 1))) =
     Inr (False, set_currentValue 0 (JStr ''true'') (host_input 1 ''on'' True (tracked_page 1)))"
proof -
  have a: "track dom_host False 1 page = Inr (tracked_page 1)"
    by (simp add: module_defs sample_defs Let_def)
  have b: "getTracker (heap page 1) \<noteq> TRef 0"
    by (simp add: module_defs sample_defs)
  have c: "getTracker (heap (tracked_page 1) 1) = TRef 0"
    by (simp add: module_defs sample_defs Let_def)
  have vf: "valueField_of (heap page 1) = Checked"
    by (simp add: module_defs sample_defs)
  have vf1: "valueField_of (heap (tracked_page 1) 1) = Checked"
    by (simp add: module_defs sample_defs Let_def)
  have d: "own (heap page 1) (valueField_of (heap page 1)) = None"
    by (simp add: module_defs sample_defs)
  have rs: "reads_slot dom_host 1 Checked"
    by (simp add: reads_slot_def slot_value_def dom_host_def dom_hget_def)
  have e: "\<forall>g. descriptor_get (classDescriptor page 1 (valueField_of (heap page 1))) = Some g
      \<longrightarrow> reads_slot dom_host g (valueField_of (heap page 1))"
    using rs by (simp add: vf) (simp add: module_defs sample_defs)
  from track_intercepting [OF a b c d e] vf1 have
    int: "intercepting dom_host (tracked_page 1) 1 0" and
    rec: "tracker_getValue 0 (tracked_page 1) =
      JStr (observed (valueField_of (heap (tracked_page 1) 1)) (heap (tracked_page 1) 1))"
    by simp_all
  have o0: "observed Checked (heap (tracked_page 1) 1) = ''false''"
    by (simp add: module_defs sample_defs observed_def Let_def)
  have o1: "observed Checked (heap (host_input 1 ''on'' True (tracked_page 1)) 1) = ''true''"
    by (simp add: host_input_def observed_def)
  from o0 o1 vf1 have ch: "observed (valueField_of (heap (tracked_page 1) 1))
        (heap (host_input 1 ''on'' True (tracked_page 1)) 1) \<noteq>
      observed (valueField_of (heap (tracked_page 1) 1)) (heap (tracked_page 1) 1)"
    by simp
  from host_change_reported_once [OF int rec ch, of False] vf1 o1
  have upd: "updateValueIfChanged dom_host False (Some 1) (host_input 1 ''on'' True (tracked_page 1)) =
     Inr (True, set_currentValue 0 (JStr ''true'') (host_input 1 ''on'' True (tracked_page 1))) \<and>
   updateValueIfChanged dom_host False (Some 1)
       (set_currentValue 0 (JStr ''true'') (host_input 1 ''on'' True (tracked_page 1))) =
     Inr (False, set_currentValue 0 (JStr ''true'') (host_input 1 ''on'' True (tracked_page 1)))"
    by simp
  from rec vf1 o0 have cur: "tracker_getValue 0 (tracked_page 1) = JStr ''false''"
    by simp
  from a int cur o0 o1 upd show ?thesis by blast
qed

text \<open>
  Claim C4, as stated, fails for a write that goes through the node's own setter.  On
  the sample page, node 0 is tracked and shows \<open>a\<close>; the script assigns \<open>b\<close> to
  \<^verbatim>\<open>node.value\<close>; the node then shows \<open>b\<close>, yet the first \<^verbatim>\<open>updateValueIfChanged\<close> returns
  \<^verbatim>\<open>false\<close>: the installed setter has recorded the write already.
\<close>

theorem write_through_setter_not_reported:
  "track dom_host False 0 page = Inr (tracked_page 0) \<and>
   getTracker (heap (tracked_page 0) 0) = TRef 0 \<and>
   returned (getValueFromNode dom_host (Some 0) (tracked_page 0)) = Inr (JStr ''a'') \<and>
   returned (andThen (set_prop dom_host False 0 Value (JStr ''b'') (tracked_page 0))
               (getValueFromNode dom_host (Some 0))) = Inr (JStr ''b'') \<and>
   returned (andThen (set_prop dom_host False 0 Value (JStr ''b'') (tracked_page 0))
               (updateValueIfChanged dom_host False (Some 0))) = Inr False"
proof -
  have a: "track dom_host False 0 page = Inr (tracked_page 0)"
    by (simp add: module_defs sample_defs Let_def)
  have c: "getTracker (heap (tracked_page 0) 0) = TRef 0"
    by (simp add: module_defs sample_defs Let_def)
  have before: "returned (getValueFromNode dom_host (Some 0) (tracked_page 0)) = Inr (JStr ''a'')"
    by (simp add: module_defs sample_defs Let_def)
  have after: "returned (andThen (set_prop dom_host False 0 Value (JStr ''b'') (tracked_page 0))
               (getValueFromNode dom_host (Some 0))) = Inr (JStr ''b'')"
    by (simp add: module_defs sample_defs Let_def)
  have upd: "returned (andThen (set_prop dom_host False 0 Value (JStr ''b'') (tracked_page 0))
               (updateValueIfChanged dom_host False (Some 0))) = Inr False"
    by (simp add: module_defs sample_defs Let_def)
  from a c before after upd show ?thesis by blast
qed


end
